theory Spec2Isabelle
  imports Main "HOL-Library.Word" "HOL-Library.Sublist"
begin

section \<open>CondoScout: chat sessions and grounding normalisation\<close>

text \<open>
  The development embeds the logic of \<^verbatim>\<open>services/geminiService\<close> (the single live chat
  context, \<^verbatim>\<open>resumeChat\<close>, \<^verbatim>\<open>sendMessageToGemini\<close> with its place extraction) and the
  session handling of \<^verbatim>\<open>App.tsx\<close> (\<^verbatim>\<open>parseAndLoadSessions\<close>, \<^verbatim>\<open>createNewSession\<close>,
  \<^verbatim>\<open>deleteSession\<close>, \<^verbatim>\<open>handleSendMessage\<close>).

  Field names carry a prefix naming their interface (\<open>maps_\<close>, \<open>place_\<close>, \<open>msg_\<close>,
  \<open>session_\<close>), because several interfaces of \<^verbatim>\<open>types.ts\<close> share the names
  \<^verbatim>\<open>id\<close>, \<^verbatim>\<open>title\<close>, \<^verbatim>\<open>uri\<close> and \<^verbatim>\<open>text\<close>.
\<close>

subsection \<open>JavaScript strings\<close>

text \<open>
  A JavaScript string is a sequence of UTF-16 code units: \<^verbatim>\<open>length\<close> counts them,
  \<^verbatim>\<open>substring\<close> cuts between them and \<^verbatim>\<open>===\<close> compares them one by one.
\<close>

type_synonym jsstring = "16 word list"

definition js :: "string \<Rightarrow> jsstring" where
  "js s = map of_char s"

text \<open>An optional string is truthy when it is present and not empty.\<close>

definition truthy :: "jsstring option \<Rightarrow> bool" where
  "truthy s = (case s of None \<Rightarrow> False | Some t \<Rightarrow> t \<noteq> [])"

text \<open>\<^verbatim>\<open>a || b\<close> for an optional string \<open>a\<close> and a string \<open>b\<close>.\<close>

definition str_or :: "jsstring option \<Rightarrow> jsstring \<Rightarrow> jsstring" where
  "str_or a b = (case a of None \<Rightarrow> b | Some t \<Rightarrow> if t \<noteq> [] then t else b)"

text \<open>
  \<^verbatim>\<open>String.prototype.trim\<close> removes white space and line terminators from both ends.
\<close>

definition is_js_whitespace :: "16 word \<Rightarrow> bool" where
  "is_js_whitespace c \<longleftrightarrow>
     c \<in> {0x0009, 0x000A, 0x000B, 0x000C, 0x000D, 0x0020, 0x00A0, 0x1680,
          0x2028, 0x2029, 0x202F, 0x205F, 0x3000, 0xFEFF}
     \<or> (0x2000 \<le> c \<and> c \<le> 0x200A)"

definition trim :: "jsstring \<Rightarrow> jsstring" where
  "trim s = rev (dropWhile is_js_whitespace (rev (dropWhile is_js_whitespace s)))"

subsection \<open>Data model (\<^verbatim>\<open>types.ts\<close>)\<close>

record web_payload =
  web_uri :: "jsstring option"
  web_title :: "jsstring option"

record reviewSnippet =
  content :: "jsstring option"

record placeAnswerSources =
  reviewSnippets :: "reviewSnippet list option"

record maps_payload =
  maps_googleMapsUri :: "jsstring option"
  maps_uri :: "jsstring option"
  maps_title :: "jsstring option"
  maps_placeId :: "jsstring option"
  maps_address :: "jsstring option"
  maps_placeAnswerSources :: "placeAnswerSources option"

record GroundingChunk =
  web :: "web_payload option"
  maps :: "maps_payload option"

record PlaceData =
  place_title :: jsstring
  place_uri :: jsstring
  place_address :: "jsstring option"
  place_description :: "jsstring option"
  place_placeId :: "jsstring option"

datatype role = User | Model

record Message =
  msg_id :: jsstring
  msg_role :: role
  msg_text :: jsstring
  msg_places :: "PlaceData list option"
  msg_isThinking :: "bool option"

record ChatSession =
  session_id :: jsstring
  session_title :: jsstring
  messages :: "Message list"
  createdAt :: int
  lastUpdated :: int

subsection \<open>The provider's response and the chat client\<close>

text \<open>
  The part of the provider's response that \<^verbatim>\<open>sendMessageToGemini\<close> reads:
  \<^verbatim>\<open>result.text\<close> and
  \<^verbatim>\<open>result.candidates?.[0]?.groundingMetadata?.groundingChunks\<close>.
\<close>

record groundingMetadata =
  groundingChunks :: "GroundingChunk list option"

record candidate =
  cand_groundingMetadata :: "groundingMetadata option"

record response =
  resp_text :: "jsstring option"
  candidates :: "candidate list option"

text \<open>The \<^verbatim>\<open>Content\<close> entries that seed a chat: a role and one text part.\<close>

record Content =
  content_role :: role
  parts :: "jsstring list"

text \<open>A thrown value.\<close>

datatype js_error = Error jsstring

text \<open>
  The chat client of the provider's SDK is not part of the repository. It enters as two
  parameters over an opaque type \<open>'chat\<close> of chat objects:
  \<^item> \<open>create history\<close> stands for \<^verbatim>\<open>ai.chats.create\<close> with the fixed model, system
    instruction and tool declaration, and the optional seed history; it builds the
    chat object without a call to the provider and, as its type says, returns one;
  \<^item> \<open>sendMessage chat message\<close> stands for \<^verbatim>\<open>chat.sendMessage\<close>: it either rejects with
    an error or resolves to a response, and leaves the chat object in a new state.
\<close>

type_synonym 'chat chats_create = "Content list option \<Rightarrow> 'chat"
type_synonym 'chat chat_send = "'chat \<Rightarrow> jsstring \<Rightarrow> (js_error + response) \<times> 'chat"

subsection \<open>\<^verbatim>\<open>services/geminiService\<close>\<close>

text \<open>The module variable \<^verbatim>\<open>chatSession\<close> is the state: \<open>None\<close> is \<^verbatim>\<open>null\<close>.\<close>

definition startNewChat :: "'chat chats_create \<Rightarrow> 'chat option \<Rightarrow> 'chat option" where
  "startNewChat create chatSession = Some (create None)"

definition validHistory :: "Message list \<Rightarrow> Content list" where
  "validHistory history =
     map (\<lambda>msg. \<lparr>content_role = msg_role msg, parts = [msg_text msg]\<rparr>)
       (filter (\<lambda>msg. \<not> (msg_isThinking msg = Some True) \<and> msg_id msg \<noteq> js ''welcome'')
          history)"

definition resumeChat ::
  "'chat chats_create \<Rightarrow> Message list \<Rightarrow> 'chat option \<Rightarrow> 'chat option" where
  "resumeChat create history chatSession = Some (create (Some (validHistory history)))"

text \<open>The grounding chunks of a response, through the optional chaining.\<close>

definition response_chunks :: "response \<Rightarrow> GroundingChunk list option" where
  "response_chunks result =
     (case candidates result of
        None \<Rightarrow> None
      | Some cs \<Rightarrow>
          (case cs of
             [] \<Rightarrow> None
           | c # _ \<Rightarrow>
               (case cand_groundingMetadata c of
                  None \<Rightarrow> None
                | Some g \<Rightarrow> groundingChunks g)))"

text \<open>\<^verbatim>\<open>mapData.placeAnswerSources?.reviewSnippets?.[0]?.content\<close>\<close>

definition snippet_of :: "maps_payload \<Rightarrow> jsstring option" where
  "snippet_of mapData =
     (case maps_placeAnswerSources mapData of
        None \<Rightarrow> None
      | Some src \<Rightarrow>
          (case reviewSnippets src of
             None \<Rightarrow> None
           | Some [] \<Rightarrow> None
           | Some (r # _) \<Rightarrow> content r))"

text \<open>\<^verbatim>\<open>mapData.uri || mapData.googleMapsUri || ""\<close>\<close>

definition resolved_uri :: "maps_payload \<Rightarrow> jsstring" where
  "resolved_uri mapData = str_or (maps_uri mapData) (str_or (maps_googleMapsUri mapData) [])"

text \<open>
  The body of the \<^verbatim>\<open>forEach\<close> callback: the array \<^verbatim>\<open>places\<close> is passed and returned,
  \<^verbatim>\<open>push\<close> appends at its end.
\<close>

definition push_chunk :: "GroundingChunk \<Rightarrow> PlaceData list \<Rightarrow> PlaceData list" where
  "push_chunk chunk places =
     (case maps chunk of
        None \<Rightarrow> places
      | Some mapData \<Rightarrow>
          (let uri = resolved_uri mapData in
           case maps_title mapData of
             None \<Rightarrow> places
           | Some t \<Rightarrow>
               if t \<noteq> [] \<and> uri \<noteq> [] then
                 places @
                   [\<lparr>place_title = t, place_uri = uri,
                     place_address = maps_address mapData,
                     place_description = snippet_of mapData,
                     place_placeId = maps_placeId mapData\<rparr>]
               else places))"

definition extract_places :: "GroundingChunk list option \<Rightarrow> PlaceData list" where
  "extract_places chunks =
     (case chunks of None \<Rightarrow> [] | Some cs \<Rightarrow> fold push_chunk cs [])"

text \<open>\<^verbatim>\<open>Array.prototype.findIndex\<close>: the first index whose element passes, or \<open>-1\<close>.\<close>

fun findIndex :: "('a \<Rightarrow> bool) \<Rightarrow> 'a list \<Rightarrow> int" where
  "findIndex P [] = - 1"
| "findIndex P (x # xs) =
     (if P x then 0 else (let r = findIndex P xs in if r < 0 then - 1 else r + 1))"

text \<open>
  \<^verbatim>\<open>places.filter((v, i, a) => a.findIndex(t => t.title === v.title) === i)\<close>
\<close>

definition uniquePlaces :: "PlaceData list \<Rightarrow> PlaceData list" where
  "uniquePlaces a =
     map fst
       (filter (\<lambda>(v, i). findIndex (\<lambda>t. place_title t = place_title v) a = int i)
          (zip a [0..<length a]))"

text \<open>The place-extraction part of \<^verbatim>\<open>sendMessageToGemini\<close>, from chunks to places.\<close>

definition grounding_places :: "GroundingChunk list option \<Rightarrow> PlaceData list" where
  "grounding_places chunks = uniquePlaces (extract_places chunks)"

record send_result =
  res_text :: jsstring
  res_places :: "PlaceData list"

definition default_text :: jsstring where
  "default_text = js ''I've curated a list of properties for you:''"

definition apology_text :: jsstring where
  "apology_text =
     js ''I apologize, but I am unable to access the property database at this moment. Please try again shortly.''"

definition init_failure :: js_error where
  "init_failure = Error (js ''Failed to initialize chat session'')"

text \<open>
  \<^verbatim>\<open>sendMessageToGemini\<close> returns the settled promise (\<open>Inl\<close> a rejection, \<open>Inr\<close> the
  result) and the new value of \<^verbatim>\<open>chatSession\<close>. The location argument is never read.
\<close>

definition sendMessageToGemini ::
  "'chat chats_create \<Rightarrow> 'chat chat_send \<Rightarrow> jsstring \<Rightarrow> 'chat option \<Rightarrow>
     (js_error + send_result) \<times> 'chat option" where
  "sendMessageToGemini create sendMessage message chatSession =
     (let chatSession1 =
            (if chatSession = None then startNewChat create chatSession else chatSession)
      in case chatSession1 of
           None \<Rightarrow> (Inl init_failure, chatSession1)
         | Some chat \<Rightarrow>
             (case sendMessage chat message of
                (Inr result, chat') \<Rightarrow>
                  (Inr \<lparr>res_text = str_or (resp_text result) default_text,
                        res_places = grounding_places (response_chunks result)\<rparr>,
                   Some chat')
              | (Inl error, chat') \<Rightarrow>
                  (Inr \<lparr>res_text = apology_text, res_places = []\<rparr>, Some chat')))"

subsection \<open>Application state (\<^verbatim>\<open>App.tsx\<close>)\<close>

record User =
  user_id :: jsstring
  user_name :: jsstring
  email :: jsstring
  picture :: jsstring

text \<open>
  The React state of \<^verbatim>\<open>App\<close> that the session logic reads or writes, together with
  the module variable \<^verbatim>\<open>chatSession\<close> of the service. A handler reads the state of
  the render it was created in and queues its updates; the updates of one handler are
  applied in the order of the calls, which state passing reproduces.

  While \<^verbatim>\<open>handleSendMessage\<close> waits for \<^verbatim>\<open>sendMessageToGemini\<close>, the rest of the handler
  is suspended; \<open>pending\<close> holds it: the session id and the placeholder id of its
  closure and the value the awaited promise settles to.
\<close>

record 'chat app_state =
  user :: "User option"
  isGuest :: bool
  sessions :: "ChatSession list"
  currentSessionId :: "jsstring option"
  inputText :: jsstring
  isLoading :: bool
  isSidebarOpen :: bool
  isMobile :: bool
  isDropdownOpen :: bool
  chatSession :: "'chat option"
  pending :: "(jsstring \<times> jsstring \<times> (js_error + send_result)) option"

definition initial_state :: "bool \<Rightarrow> 'chat app_state" where
  "initial_state mobile =
     \<lparr>user = None, isGuest = False, sessions = [], currentSessionId = None,
      inputText = [], isLoading = False, isSidebarOpen = True, isMobile = mobile,
      isDropdownOpen = False, chatSession = None, pending = None\<rparr>"

text \<open>
  The text of the welcome message starts with four code units that are not ASCII and
  contains line feeds and double quotes, which are given by their numbers. (The four
  code units are those of \<^verbatim>\<open>App.tsx\<close>; the second copy of the component in the
  repository has the two code units of the waving-hand sign there. Nothing below
  depends on the text.)
\<close>

definition welcome_text :: jsstring where
  "welcome_text =
     [0x00F0, 0x0178, 0x2018, 0x2039] @ js '' Hello, I'm **Royce**.'' @ [0x000A, 0x000A]
     @ js ''I am your personal real estate concierge. I'll help you find condominiums, apartments, or luxury hotels.''
     @ [0x000A, 0x000A] @ js ''*'' @ [0x0022]
     @ js ''Show me some 1-bedroom apartments in Sukhumvit near the station.''
     @ [0x0022] @ js ''*''"

definition welcomeMsg :: Message where
  "welcomeMsg =
     \<lparr>msg_id = js ''welcome'', msg_role = Model, msg_text = welcome_text,
      msg_places = Some [], msg_isThinking = None\<rparr>"

text \<open>
  The session built by \<^verbatim>\<open>createNewSession\<close>; \<open>newId\<close> is the result of \<^verbatim>\<open>uuidv4()\<close>,
  \<open>now1\<close> and \<open>now2\<close> are the results of its two calls of \<^verbatim>\<open>Date.now()\<close>.
\<close>

definition newSession :: "jsstring \<Rightarrow> int \<Rightarrow> int \<Rightarrow> ChatSession" where
  "newSession newId now1 now2 =
     \<lparr>session_id = newId, session_title = js ''New Search'', messages = [welcomeMsg],
      createdAt = now1, lastUpdated = now2\<rparr>"

definition createNewSession ::
  "'chat chats_create \<Rightarrow> jsstring \<Rightarrow> int \<Rightarrow> int \<Rightarrow> 'chat app_state \<Rightarrow> 'chat app_state" where
  "createNewSession create newId now1 now2 st =
     (let st1 = st\<lparr>sessions := newSession newId now1 now2 # sessions st\<rparr>;
          st2 = st1\<lparr>currentSessionId := Some newId\<rparr>;
          st3 = st2\<lparr>chatSession := startNewChat create (chatSession st2)\<rparr>
      in if isMobile st then st3\<lparr>isSidebarOpen := False\<rparr> else st3)"

text \<open>
  \<^verbatim>\<open>JSON.parse\<close> is a parameter: it throws, or yields the stored session list.
  \<^verbatim>\<open>parsed.sort\<close> sorts in place, stably, by descending \<^verbatim>\<open>lastUpdated\<close>; the array handed
  to \<^verbatim>\<open>setSessions\<close> just before is the same object, so the stored list is the sorted
  one. An empty sorted list has no element 0: reading its \<^verbatim>\<open>id\<close> throws into the
  \<^verbatim>\<open>catch\<close> branch.
\<close>

type_synonym json_parse = "jsstring \<Rightarrow> js_error + ChatSession list"

definition parseAndLoadSessions ::
  "json_parse \<Rightarrow> 'chat chats_create \<Rightarrow> jsstring option \<Rightarrow> jsstring \<Rightarrow> int \<Rightarrow> int \<Rightarrow>
     'chat app_state \<Rightarrow> 'chat app_state" where
  "parseAndLoadSessions JSON_parse create jsonString newId now1 now2 st =
     (case jsonString of
        None \<Rightarrow> createNewSession create newId now1 now2 st
      | Some j \<Rightarrow>
          if j = [] then createNewSession create newId now1 now2 st
          else
            (case JSON_parse j of
               Inl e \<Rightarrow> createNewSession create newId now1 now2 st
             | Inr parsed \<Rightarrow>
                 if length parsed > 0 then
                   (let sorted = sort_key (\<lambda>a. - lastUpdated a) parsed;
                        st1 = st\<lparr>sessions := sorted\<rparr>
                    in case sorted of
                         [] \<Rightarrow> createNewSession create newId now1 now2 st1
                       | mostRecent # _ \<Rightarrow>
                           st1\<lparr>currentSessionId := Some (session_id mostRecent),
                               chatSession :=
                                 resumeChat create (messages mostRecent) (chatSession st1)\<rparr>)
                 else createNewSession create newId now1 now2 (st\<lparr>sessions := parsed\<rparr>)))"

definition deleteSession ::
  "'chat chats_create \<Rightarrow> jsstring \<Rightarrow> jsstring \<Rightarrow> int \<Rightarrow> int \<Rightarrow>
     'chat app_state \<Rightarrow> 'chat app_state" where
  "deleteSession create ident newId now1 now2 st =
     (let newSessions = filter (\<lambda>s. session_id s \<noteq> ident) (sessions st);
          st1 = st\<lparr>sessions := newSessions\<rparr>
      in if currentSessionId st = Some ident then
           (case newSessions of
              first # _ \<Rightarrow>
                st1\<lparr>currentSessionId := Some (session_id first),
                    chatSession := resumeChat create (messages first) (chatSession st1)\<rparr>
            | [] \<Rightarrow> createNewSession create newId now1 now2 st1)
         else st1)"

text \<open>The \<^verbatim>\<open>onSelectSession\<close> callback handed to the sidebar.\<close>

definition onSelectSession ::
  "'chat chats_create \<Rightarrow> jsstring \<Rightarrow> 'chat app_state \<Rightarrow> 'chat app_state" where
  "onSelectSession create ident st =
     (let st1 =
            (case find (\<lambda>x. session_id x = ident) (sessions st) of
               Some s \<Rightarrow>
                 st\<lparr>currentSessionId := Some ident,
                    chatSession := resumeChat create (messages s) (chatSession st)\<rparr>
             | None \<Rightarrow> st)
      in if isMobile st then st1\<lparr>isSidebarOpen := False\<rparr> else st1)"

text \<open>
  \<^verbatim>\<open>handleCredentialResponse\<close> takes the outcome of decoding the credential: the user
  record, or the error that its \<^verbatim>\<open>catch\<close> only logs.
\<close>

definition handleCredentialResponse ::
  "js_error + User \<Rightarrow> 'chat app_state \<Rightarrow> 'chat app_state" where
  "handleCredentialResponse decoded st =
     (case decoded of
        Inr newUser \<Rightarrow> st\<lparr>user := Some newUser, isGuest := False\<rparr>
      | Inl e \<Rightarrow> st)"

definition handleGuestLogin :: "'chat app_state \<Rightarrow> 'chat app_state" where
  "handleGuestLogin st = st\<lparr>isGuest := True, user := None\<rparr>"

definition handleLogout :: "'chat app_state \<Rightarrow> 'chat app_state" where
  "handleLogout st =
     st\<lparr>user := None, isGuest := False, sessions := [], currentSessionId := None,
        isDropdownOpen := False\<rparr>"

text \<open>\<^verbatim>\<open>handleResize\<close>, with the outcome of \<^verbatim>\<open>window.innerWidth < 768\<close>.\<close>

definition handleResize :: "bool \<Rightarrow> 'chat app_state \<Rightarrow> 'chat app_state" where
  "handleResize mobile st =
     (let st1 = st\<lparr>isMobile := mobile\<rparr>
      in if mobile then st1\<lparr>isSidebarOpen := False\<rparr> else st1\<lparr>isSidebarOpen := True\<rparr>)"

subsection \<open>\<^verbatim>\<open>handleSendMessage\<close>\<close>

text \<open>
  The three functions mapped over a session's messages or over the sessions by
  \<^verbatim>\<open>handleSendMessage\<close>: the update at submission, the update when the awaited call
  resolves, and the update of the \<^verbatim>\<open>catch\<close> branch.
\<close>

definition submit_session ::
  "jsstring \<Rightarrow> jsstring \<Rightarrow> int \<Rightarrow> Message \<Rightarrow> Message \<Rightarrow> ChatSession \<Rightarrow> ChatSession" where
  "submit_session current userText now userMsg thinkingMsg session =
     (if session_id session = current then
        session
          \<lparr>session_title :=
             (if length (messages session) \<le> 1 then
                (if length userText > 30 then take 30 userText @ js ''...'' else userText)
              else session_title session),
           lastUpdated := now,
           messages := messages session @ [userMsg, thinkingMsg]\<rparr>
      else session)"

definition resolve_session ::
  "jsstring \<Rightarrow> jsstring \<Rightarrow> send_result \<Rightarrow> ChatSession \<Rightarrow> ChatSession" where
  "resolve_session current thinkingMsgId response session =
     (if session_id session = current then
        session
          \<lparr>messages :=
             map (\<lambda>msg. if msg_id msg = thinkingMsgId then
                          msg\<lparr>msg_text := res_text response,
                              msg_places := Some (res_places response),
                              msg_isThinking := Some False\<rparr>
                        else msg)
               (messages session)\<rparr>
      else session)"

definition fail_session :: "jsstring \<Rightarrow> jsstring \<Rightarrow> ChatSession \<Rightarrow> ChatSession" where
  "fail_session current thinkingMsgId session =
     (if session_id session = current then
        session
          \<lparr>messages :=
             map (\<lambda>msg. if msg_id msg = thinkingMsgId then
                          msg\<lparr>msg_text := js ''Connection error. Please try again.'',
                              msg_isThinking := Some False\<rparr>
                        else msg)
               (messages session)\<rparr>
      else session)"

text \<open>
  The synchronous first part, up to \<^verbatim>\<open>setIsLoading(true)\<close>. \<open>None\<close> is the guard's early
  return; otherwise the values the rest of the handler keeps in its closure (the
  active session's id and the trimmed text) come with the new state. \<open>userMsgId\<close> and
  \<open>thinkingMsgId\<close> are the results of \<^verbatim>\<open>uuidv4()\<close>, \<open>now\<close> that of \<^verbatim>\<open>Date.now()\<close>.
\<close>

definition handleSendMessage_submit ::
  "jsstring \<Rightarrow> jsstring \<Rightarrow> int \<Rightarrow> 'chat app_state \<Rightarrow>
     (jsstring \<times> jsstring \<times> 'chat app_state) option" where
  "handleSendMessage_submit userMsgId thinkingMsgId now st =
     (case currentSessionId st of
        None \<Rightarrow> None
      | Some current \<Rightarrow>
          if trim (inputText st) = [] \<or> isLoading st \<or> current = [] then None
          else
            (let userText = trim (inputText st);
                 userMsg = \<lparr>msg_id = userMsgId, msg_role = User, msg_text = userText,
                            msg_places = None, msg_isThinking = None\<rparr>;
                 thinkingMsg = \<lparr>msg_id = thinkingMsgId, msg_role = Model, msg_text = [],
                                msg_places = None, msg_isThinking = Some True\<rparr>
             in Some (current, userText,
                  st\<lparr>inputText := [],
                     sessions :=
                       map (submit_session current userText now userMsg thinkingMsg)
                         (sessions st),
                     isLoading := True\<rparr>)))"

text \<open>
  What the handler does once the awaited promise has settled to \<open>awaited\<close>: the update
  of the \<^verbatim>\<open>try\<close> block when it resolved, that of the \<^verbatim>\<open>catch\<close> block when it rejected,
  then \<^verbatim>\<open>finally\<close>.
\<close>

definition handleSendMessage_continue ::
  "jsstring \<Rightarrow> jsstring \<Rightarrow> js_error + send_result \<Rightarrow> 'chat app_state \<Rightarrow> 'chat app_state" where
  "handleSendMessage_continue current thinkingMsgId awaited st =
     (case awaited of
        Inr response \<Rightarrow>
          st\<lparr>sessions := map (resolve_session current thinkingMsgId response) (sessions st),
             isLoading := False\<rparr>
      | Inl error \<Rightarrow>
          st\<lparr>sessions := map (fail_session current thinkingMsgId) (sessions st),
             isLoading := False\<rparr>)"

text \<open>
  The rest of the handler when nothing happens while it waits: the awaited call, then
  the continuation.
\<close>

definition handleSendMessage_settle ::
  "'chat chats_create \<Rightarrow> 'chat chat_send \<Rightarrow> jsstring \<Rightarrow> jsstring \<Rightarrow> jsstring \<Rightarrow>
     'chat app_state \<Rightarrow> 'chat app_state" where
  "handleSendMessage_settle create sendMessage current thinkingMsgId userText st =
     (case sendMessageToGemini create sendMessage userText (chatSession st) of
        (awaited, chat) \<Rightarrow>
          handleSendMessage_continue current thinkingMsgId awaited (st\<lparr>chatSession := chat\<rparr>))"

definition handleSendMessage ::
  "'chat chats_create \<Rightarrow> 'chat chat_send \<Rightarrow> jsstring \<Rightarrow> jsstring \<Rightarrow> int \<Rightarrow>
     'chat app_state \<Rightarrow> 'chat app_state" where
  "handleSendMessage create sendMessage userMsgId thinkingMsgId now st =
     (case handleSendMessage_submit userMsgId thinkingMsgId now st of
        None \<Rightarrow> st
      | Some (current, userText, st1) \<Rightarrow>
          handleSendMessage_settle create sendMessage current thinkingMsgId userText st1)"

subsection \<open>The operations as events\<close>

text \<open>
  Every handler that writes the modelled state is an event with the values it draws
  from its environment; the toggles of theme, sidebar and menu are left out, they write
  nothing else. \<^verbatim>\<open>handleSendMessage\<close> is two events, since the user can act while the
  call is awaited.
  \<^item> \<open>Submit\<close> is the handler up to its \<^verbatim>\<open>await\<close>: the guard, the updates of the
    submission, and the call of \<^verbatim>\<open>sendMessageToGemini\<close>, which makes the fallback and
    sends on the chat context of that moment. The promise's value is determined by
    that context and the message; it is kept in \<open>pending\<close>. The chat object takes its
    new state here: until the promise settles nothing reads it, since a second
    submission is refused while \<^verbatim>\<open>isLoading\<close> holds and a new context is built without
    reading the old one.
  \<^item> \<open>Settle\<close> is the promise settling: the suspended rest of the handler runs on
    the state of that moment.
\<close>

datatype event =
    Load "jsstring option" jsstring int int
  | NewChat jsstring int int
  | Delete jsstring jsstring int int
  | Select jsstring
  | SetInput jsstring
  | Submit jsstring jsstring int
  | Settle
  | CredentialLogin "js_error + User"
  | GuestLogin
  | Logout
  | Resize bool

fun step ::
  "'chat chats_create \<Rightarrow> 'chat chat_send \<Rightarrow> json_parse \<Rightarrow> event \<Rightarrow>
     'chat app_state \<Rightarrow> 'chat app_state" where
  "step create sendMessage JSON_parse (Load raw newId now1 now2) st =
     parseAndLoadSessions JSON_parse create raw newId now1 now2 st"
| "step create sendMessage JSON_parse (NewChat newId now1 now2) st =
     createNewSession create newId now1 now2 st"
| "step create sendMessage JSON_parse (Delete ident newId now1 now2) st =
     deleteSession create ident newId now1 now2 st"
| "step create sendMessage JSON_parse (Select ident) st = onSelectSession create ident st"
| "step create sendMessage JSON_parse (SetInput t) st = st\<lparr>inputText := t\<rparr>"
| "step create sendMessage JSON_parse (Submit userMsgId thinkingMsgId now) st =
     (case handleSendMessage_submit userMsgId thinkingMsgId now st of
        None \<Rightarrow> st
      | Some (current, userText, st1) \<Rightarrow>
          (case sendMessageToGemini create sendMessage userText (chatSession st1) of
             (awaited, chat) \<Rightarrow>
               st1\<lparr>chatSession := chat,
                   pending := Some (current, thinkingMsgId, awaited)\<rparr>))"
| "step create sendMessage JSON_parse Settle st =
     (case pending st of
        None \<Rightarrow> st
      | Some (current, thinkingMsgId, awaited) \<Rightarrow>
          (handleSendMessage_continue current thinkingMsgId awaited st)\<lparr>pending := None\<rparr>)"
| "step create sendMessage JSON_parse (CredentialLogin decoded) st =
     handleCredentialResponse decoded st"
| "step create sendMessage JSON_parse GuestLogin st = handleGuestLogin st"
| "step create sendMessage JSON_parse Logout st = handleLogout st"
| "step create sendMessage JSON_parse (Resize mobile) st = handleResize mobile st"

fun is_submit :: "event \<Rightarrow> bool" where
  "is_submit (Submit userMsgId thinkingMsgId now) = True"
| "is_submit ev = False"

text \<open>The events that put sessions into the store or take sessions out of it.\<close>

fun restocks :: "event \<Rightarrow> bool" where
  "restocks (Load raw newId now1 now2) = True"
| "restocks (NewChat newId now1 now2) = True"
| "restocks (Delete ident newId now1 now2) = True"
| "restocks Logout = True"
| "restocks ev = False"

text \<open>
  The sessions an event brings with it: the default session it may create, built from
  its own id and times, and for a load the sessions its input parses to.
\<close>

fun brought :: "json_parse \<Rightarrow> event \<Rightarrow> ChatSession set" where
  "brought JSON_parse (Load raw newId now1 now2) =
     insert (newSession newId now1 now2)
       (case raw of
          None \<Rightarrow> {}
        | Some j \<Rightarrow> (case JSON_parse j of Inl e \<Rightarrow> {} | Inr parsed \<Rightarrow> set parsed))"
| "brought JSON_parse (NewChat newId now1 now2) = {newSession newId now1 now2}"
| "brought JSON_parse (Delete ident newId now1 now2) = {newSession newId now1 now2}"
| "brought JSON_parse ev = {}"

inductive reachable ::
  "'chat chats_create \<Rightarrow> 'chat chat_send \<Rightarrow> json_parse \<Rightarrow> 'chat app_state \<Rightarrow> bool"
  for create :: "'chat chats_create" and sendMessage :: "'chat chat_send"
    and JSON_parse :: json_parse where
  reachable_init: "reachable create sendMessage JSON_parse (initial_state mobile)"
| reachable_step:
    "reachable create sendMessage JSON_parse st \<Longrightarrow>
     reachable create sendMessage JSON_parse (step create sendMessage JSON_parse ev st)"

text \<open>The updates one session can undergo through \<^verbatim>\<open>handleSendMessage\<close>.\<close>

datatype session_update =
    Submitted jsstring jsstring int Message Message
  | Resolved jsstring jsstring send_result
  | Failed jsstring jsstring


subsection \<open>Auxiliary functions of the proofs\<close>

text \<open>Keeping the first record of every title, given the titles already seen.\<close>

fun keep_first :: "jsstring set \<Rightarrow> PlaceData list \<Rightarrow> PlaceData list" where
  "keep_first seen [] = []"
| "keep_first seen (p # ps) =
     (if place_title p \<in> seen then keep_first seen ps
      else p # keep_first (insert (place_title p) seen) ps)"

text \<open>Two sessions that differ in their messages at most.\<close>

definition same_but_messages :: "ChatSession \<Rightarrow> ChatSession \<Rightarrow> bool" where
  "same_but_messages s' s \<longleftrightarrow>
     session_id s' = session_id s \<and> session_title s' = session_title s
     \<and> createdAt s' = createdAt s \<and> lastUpdated s' = lastUpdated s"

text \<open>
  The stored list \<open>after\<close> consists of sessions from \<open>B\<close> followed by sessions of the
  list \<open>before\<close>, in their order, some left out, the others the same but for their
  messages.
\<close>

definition store_frame :: "ChatSession set \<Rightarrow> ChatSession list \<Rightarrow> ChatSession list \<Rightarrow> bool" where
  "store_frame B before after \<longleftrightarrow>
     (\<exists>pre rest kept. after = pre @ rest \<and> set pre \<subseteq> B \<and> subseq kept before
        \<and> list_all2 same_but_messages rest kept)"

text \<open>The active session is one of the stored sessions, whenever there is any.\<close>

definition active_in_store :: "'chat app_state \<Rightarrow> bool" where
  "active_in_store st \<longleftrightarrow>
     (sessions st = [] \<or>
      (\<exists>c. currentSessionId st = Some c \<and> c \<in> session_id ` set (sessions st)))"

subsection \<open>Example data\<close>

definition ex_chunk :: "string \<Rightarrow> string \<Rightarrow> GroundingChunk" where
  "ex_chunk t u =
     \<lparr>web = None,
      maps = Some \<lparr>maps_googleMapsUri = None, maps_uri = Some (js u), maps_title = Some (js t),
                   maps_placeId = None, maps_address = None,
                   maps_placeAnswerSources = None\<rparr>\<rparr>"

definition ex_place :: "string \<Rightarrow> string \<Rightarrow> PlaceData" where
  "ex_place t u =
     \<lparr>place_title = js t, place_uri = js u, place_address = None,
      place_description = None, place_placeId = None\<rparr>"

text \<open>A chunk with a title and neither of the two URI fields.\<close>

definition ex_chunk_no_uri :: GroundingChunk where
  "ex_chunk_no_uri =
     \<lparr>web = None,
      maps = Some \<lparr>maps_googleMapsUri = None, maps_uri = None, maps_title = Some (js ''C''),
                   maps_placeId = None, maps_address = None,
                   maps_placeAnswerSources = None\<rparr>\<rparr>"

text \<open>A maps payload with both URI fields.\<close>

definition ex_maps_both :: maps_payload where
  "ex_maps_both =
     \<lparr>maps_googleMapsUri = Some (js ''g''), maps_uri = Some (js ''u''),
      maps_title = Some (js ''D''), maps_placeId = None, maps_address = None,
      maps_placeAnswerSources = None\<rparr>"

definition ex_user_msg :: Message where
  "ex_user_msg =
     \<lparr>msg_id = js ''m1'', msg_role = User, msg_text = js ''condo in Silom'',
      msg_places = None, msg_isThinking = None\<rparr>"

definition ex_thinking_msg :: Message where
  "ex_thinking_msg =
     \<lparr>msg_id = js ''m2'', msg_role = Model, msg_text = [],
      msg_places = None, msg_isThinking = Some True\<rparr>"

text \<open>
  A chat client for the examples: a chat object is its seed history; sending rejects
  on the message \<open>fail\<close>, answers without text on the empty message and echoes
  any other message.
\<close>

definition ex_create :: "(Content list option) chats_create" where
  "ex_create history = history"

definition ex_send :: "(Content list option) chat_send" where
  "ex_send chat message =
     (if message = js ''fail'' then (Inl (Error (js ''network'')), chat)
      else (Inr \<lparr>resp_text = (if message = [] then None else Some message),
                 candidates = None\<rparr>, chat))"

text \<open>Two stored sessions and a parser that knows three blobs.\<close>

definition ex_stored :: "ChatSession list" where
  "ex_stored =
     [\<lparr>session_id = js ''a'', session_title = js ''older'',
       messages = [welcomeMsg, ex_user_msg], createdAt = 10, lastUpdated = 20\<rparr>,
      \<lparr>session_id = js ''b'', session_title = js ''newer'', messages = [welcomeMsg],
       createdAt = 30, lastUpdated = 40\<rparr>]"

definition ex_parse :: json_parse where
  "ex_parse j =
     (if j = js ''[]'' then Inr []
      else if j = js ''stored'' then Inr ex_stored
      else Inl (Error (js ''SyntaxError'')))"

text \<open>
  States of a run: after the first load with nothing stored, after a second session was
  opened, after text was typed into the first state, after the state updates of its
  submission, and after the whole \<open>Submit\<close> event, the call awaited.
\<close>

definition ex_loaded :: "(Content list option) app_state" where
  "ex_loaded =
     step ex_create ex_send ex_parse (Load None (js ''s1'') 1 1) (initial_state False)"

definition ex_two :: "(Content list option) app_state" where
  "ex_two = step ex_create ex_send ex_parse (NewChat (js ''s2'') 2 2) ex_loaded"

definition ex_typed :: "(Content list option) app_state" where
  "ex_typed = step ex_create ex_send ex_parse (SetInput (js '' hi '')) ex_loaded"

definition ex_submitted :: "(Content list option) app_state" where
  "ex_submitted =
     ex_typed
       \<lparr>inputText := [],
        sessions :=
          map (submit_session (js ''s1'') (js ''hi'') 5
                 \<lparr>msg_id = js ''m1'', msg_role = User, msg_text = js ''hi'',
                   msg_places = None, msg_isThinking = None\<rparr>
                 \<lparr>msg_id = js ''m2'', msg_role = Model, msg_text = [],
                   msg_places = None, msg_isThinking = Some True\<rparr>)
            (sessions ex_typed),
        isLoading := True\<rparr>"

definition ex_awaiting :: "(Content list option) app_state" where
  "ex_awaiting = step ex_create ex_send ex_parse (Submit (js ''m1'') (js ''m2'') 5) ex_typed"

section \<open>Grounding normalisation\<close>

lemma findIndex_ge: "- 1 \<le> findIndex P xs"
  by (induction xs) (auto simp: Let_def)

lemma findIndex_eq_iff:
  "findIndex P xs = int i \<longleftrightarrow> i < length xs \<and> P (xs ! i) \<and> (\<forall>j<i. \<not> P (xs ! j))"
proof (induction xs arbitrary: i)
  case Nil
  then show ?case by simp
next
  case (Cons x xs)
  show ?case
  proof (cases "P x")
    case True
    then show ?thesis by (cases i) auto
  next
    case False
    show ?thesis
    proof (cases i)
      case 0
      with False findIndex_ge [of P xs] show ?thesis by (auto simp: Let_def)
    next
      case (Suc k)
      have "findIndex P (x # xs) = int (Suc k) \<longleftrightarrow> findIndex P xs = int k"
        using False findIndex_ge [of P xs] by (auto simp: Let_def)
      also have "\<dots> \<longleftrightarrow> k < length xs \<and> P (xs ! k) \<and> (\<forall>j<k. \<not> P (xs ! j))"
        by (rule Cons.IH)
      also have "\<dots> \<longleftrightarrow> Suc k < length (x # xs) \<and> P ((x # xs) ! Suc k) \<and> (\<forall>j<Suc k. \<not> P ((x # xs) ! j))"
        using False by (auto simp: less_Suc_eq_0_disj)
      finally show ?thesis using Suc by simp
    qed
  qed
qed

lemma filter_first_keep:
  "map fst (filter (\<lambda>(v, i). findIndex (\<lambda>t. place_title t = place_title v) (pre @ xs) = int i)
      (zip xs [length pre..<length pre + length xs]))
   = keep_first (place_title ` set pre) xs"
proof (induction xs arbitrary: pre)
  case Nil
  then show ?case by simp
next
  case (Cons x xs)
  have idx: "findIndex (\<lambda>t. place_title t = place_title x) (pre @ x # xs) = int (length pre)
        \<longleftrightarrow> place_title x \<notin> place_title ` set pre"
  proof -
    have "(\<forall>j<length pre. place_title ((pre @ x # xs) ! j) \<noteq> place_title x)
        \<longleftrightarrow> place_title x \<notin> place_title ` set pre"
    proof
      assume a: "\<forall>j<length pre. place_title ((pre @ x # xs) ! j) \<noteq> place_title x"
      show "place_title x \<notin> place_title ` set pre"
      proof
        assume "place_title x \<in> place_title ` set pre"
        then obtain j where "j < length pre" "place_title (pre ! j) = place_title x"
          by (auto simp: in_set_conv_nth)
        with a show False by (auto simp: nth_append)
      qed
    next
      assume n: "place_title x \<notin> place_title ` set pre"
      show "\<forall>j<length pre. place_title ((pre @ x # xs) ! j) \<noteq> place_title x"
      proof (intro allI impI)
        fix j assume j: "j < length pre"
        then have "pre ! j \<in> set pre" by simp
        then have "place_title (pre ! j) \<in> place_title ` set pre" by (rule imageI)
        with n have "place_title (pre ! j) \<noteq> place_title x" by metis
        with j show "place_title ((pre @ x # xs) ! j) \<noteq> place_title x"
          by (simp add: nth_append)
      qed
    qed
    then show ?thesis by (simp add: findIndex_eq_iff)
  qed
  have up: "[length pre..<length pre + length (x # xs)]
        = length pre # [length (pre @ [x])..<length (pre @ [x]) + length xs]"
    by (subst upt_rec) simp
  have ih: "map fst (filter (\<lambda>(v, i). findIndex (\<lambda>t. place_title t = place_title v) (pre @ x # xs) = int i)
      (zip xs [length (pre @ [x])..<length (pre @ [x]) + length xs]))
   = keep_first (place_title ` set (pre @ [x])) xs"
    using Cons.IH [of "pre @ [x]"] by simp
  show ?case
    unfolding up using idx ih by (simp add: insert_absorb)
qed

lemma uniquePlaces_keep: "uniquePlaces a = keep_first {} a"
  using filter_first_keep [of "[]" a] by (simp add: uniquePlaces_def)






lemma push_chunk_append: "push_chunk c places = places @ push_chunk c []"
  by (simp add: push_chunk_def Let_def split: option.splits)

lemma fold_push_chunk: "fold push_chunk cs places = places @ concat (map (\<lambda>c. push_chunk c []) cs)"
proof (induction cs arbitrary: places)
  case Nil
  then show ?case by simp
next
  case (Cons c cs)
  have "fold push_chunk (c # cs) places = fold push_chunk cs (push_chunk c places)" by simp
  also have "\<dots> = push_chunk c places @ concat (map (\<lambda>c. push_chunk c []) cs)"
    by (rule Cons.IH)
  also have "\<dots> = places @ concat (map (\<lambda>c. push_chunk c []) (c # cs))"
    using push_chunk_append [of c places] by simp
  finally show ?case .
qed

lemma extract_places_concat:
  "extract_places (Some cs) = concat (map (\<lambda>c. push_chunk c []) cs)"
  by (simp add: extract_places_def fold_push_chunk)

lemma push_chunk_origin:
  "p \<in> set (push_chunk c []) \<Longrightarrow>
     \<exists>m. maps c = Some m \<and> maps_title m = Some (place_title p) \<and> place_title p \<noteq> []
       \<and> place_uri p = resolved_uri m \<and> place_uri p \<noteq> []"
proof -
  assume p: "p \<in> set (push_chunk c [])"
  then obtain m where m: "maps c = Some m"
    by (cases "maps c") (auto simp: push_chunk_def)
  with p obtain t where t: "maps_title m = Some t"
    by (cases "maps_title m") (auto simp: push_chunk_def Let_def)
  from p m t have "t \<noteq> [] \<and> resolved_uri m \<noteq> [] \<and> place_title p = t
      \<and> place_uri p = resolved_uri m"
    by (auto simp: push_chunk_def Let_def split: if_splits)
  with m t show ?thesis by simp
qed

lemma push_chunk_rejected:
  "maps c = None \<or> (\<exists>m. maps c = Some m \<and> (\<not> truthy (maps_title m)
       \<or> (\<not> truthy (maps_uri m) \<and> \<not> truthy (maps_googleMapsUri m))))
   \<Longrightarrow> push_chunk c places = places"
  by (auto simp: push_chunk_def Let_def truthy_def resolved_uri_def str_or_def split: option.splits)

lemma resolved_uri_preference:
  "truthy (maps_uri md) \<Longrightarrow> Some (resolved_uri md) = maps_uri md"
  "\<not> truthy (maps_uri md) \<Longrightarrow> truthy (maps_googleMapsUri md)
     \<Longrightarrow> Some (resolved_uri md) = maps_googleMapsUri md"
  by (auto simp: truthy_def resolved_uri_def str_or_def split: option.splits)

lemma keep_first_subset: "set (keep_first seen ps) \<subseteq> set ps"
  by (induction seen ps rule: keep_first.induct) auto

lemma uniquePlaces_subset: "set (uniquePlaces a) \<subseteq> set a"
  by (simp add: uniquePlaces_keep keep_first_subset)



text \<open>
  Claim C7. A chunk without a maps payload, without a non-empty title, or with
  neither \<^verbatim>\<open>uri\<close> nor \<^verbatim>\<open>googleMapsUri\<close> (absent or empty, both) adds nothing to the
  places: the result is that of the list without the chunk, and every returned record
  stems from another chunk, one with a non-empty title and a non-empty resolved URI.
  The resolved URI is \<^verbatim>\<open>uri\<close> when that is non-empty, else a non-empty
  \<^verbatim>\<open>googleMapsUri\<close>. The extraction has no error branch.
\<close>

theorem rejected_chunk_dropped:
  assumes "maps c = None \<or> (\<exists>m. maps c = Some m \<and> (\<not> truthy (maps_title m)
       \<or> (\<not> truthy (maps_uri m) \<and> \<not> truthy (maps_googleMapsUri m))))"
  shows "push_chunk c places = places
    \<and> grounding_places (Some (xs @ c # ys)) = grounding_places (Some (xs @ ys))
    \<and> (\<forall>p \<in> set (grounding_places (Some (xs @ c # ys))).
         \<exists>d \<in> set (xs @ ys). \<exists>m. maps d = Some m \<and> maps_title m = Some (place_title p)
            \<and> place_title p \<noteq> [] \<and> place_uri p = resolved_uri m \<and> place_uri p \<noteq> [])
    \<and> (truthy (maps_uri md) \<longrightarrow> Some (resolved_uri md) = maps_uri md)
    \<and> (\<not> truthy (maps_uri md) \<and> truthy (maps_googleMapsUri md) \<longrightarrow>
         Some (resolved_uri md) = maps_googleMapsUri md)"
proof -
  have r: "push_chunk c places = places" for places
    using assms by (rule push_chunk_rejected)
  have e: "extract_places (Some (xs @ c # ys)) = extract_places (Some (xs @ ys))"
    by (simp add: extract_places_concat r)
  have g: "grounding_places (Some (xs @ c # ys)) = grounding_places (Some (xs @ ys))"
    by (simp add: grounding_places_def e)
  have o: "\<exists>d \<in> set (xs @ ys). \<exists>m. maps d = Some m \<and> maps_title m = Some (place_title p)
            \<and> place_title p \<noteq> [] \<and> place_uri p = resolved_uri m \<and> place_uri p \<noteq> []"
    if "p \<in> set (grounding_places (Some (xs @ c # ys)))" for p
  proof -
    from that g have "p \<in> set (extract_places (Some (xs @ ys)))"
      using uniquePlaces_subset by (auto simp: grounding_places_def)
    then obtain d where d: "d \<in> set (xs @ ys)" "p \<in> set (push_chunk d [])"
      by (auto simp: extract_places_concat)
    from push_chunk_origin [OF d(2)] d(1) show ?thesis by blast
  qed
  from r g o resolved_uri_preference [of md] show ?thesis by blast
qed

theorem rejected_chunk_dropped_witness:
  "(maps ex_chunk_no_uri = None \<or> (\<exists>m. maps ex_chunk_no_uri = Some m \<and> (\<not> truthy (maps_title m)
       \<or> (\<not> truthy (maps_uri m) \<and> \<not> truthy (maps_googleMapsUri m)))))
   \<and> grounding_places (Some ([ex_chunk ''A'' ''u1''] @ ex_chunk_no_uri # [ex_chunk ''B'' ''u3'']))
     = [ex_place ''A'' ''u1'', ex_place ''B'' ''u3'']
   \<and> truthy (maps_uri ex_maps_both) \<and> resolved_uri ex_maps_both = js ''u''
   \<and> \<not> truthy (maps_uri (ex_maps_both\<lparr>maps_uri := Some []\<rparr>))
   \<and> truthy (maps_googleMapsUri (ex_maps_both\<lparr>maps_uri := Some []\<rparr>))
   \<and> resolved_uri (ex_maps_both\<lparr>maps_uri := Some []\<rparr>) = js ''g''"
proof -
  have h: "maps ex_chunk_no_uri = None \<or> (\<exists>m. maps ex_chunk_no_uri = Some m \<and> (\<not> truthy (maps_title m)
       \<or> (\<not> truthy (maps_uri m) \<and> \<not> truthy (maps_googleMapsUri m))))"
    by (simp add: ex_chunk_no_uri_def truthy_def)
  have e: "grounding_places (Some ([ex_chunk ''A'' ''u1''] @ [ex_chunk ''B'' ''u3'']))
     = [ex_place ''A'' ''u1'', ex_place ''B'' ''u3'']"
    by (simp add: grounding_places_def extract_places_def push_chunk_def ex_chunk_def
      ex_place_def uniquePlaces_def resolved_uri_def str_or_def js_def snippet_of_def upt_rec)
  note t = rejected_chunk_dropped
    [OF h, where xs = "[ex_chunk ''A'' ''u1'']" and ys = "[ex_chunk ''B'' ''u3'']"]
  from t [where md = ex_maps_both]
  have "grounding_places (Some ([ex_chunk ''A'' ''u1''] @ ex_chunk_no_uri # [ex_chunk ''B'' ''u3'']))
     = grounding_places (Some ([ex_chunk ''A'' ''u1''] @ [ex_chunk ''B'' ''u3'']))"
    by blast
  with e have a:
    "grounding_places (Some ([ex_chunk ''A'' ''u1''] @ ex_chunk_no_uri # [ex_chunk ''B'' ''u3'']))
     = [ex_place ''A'' ''u1'', ex_place ''B'' ''u3'']"
    by simp
  have p: "truthy (maps_uri ex_maps_both)"
    by (simp add: ex_maps_both_def truthy_def js_def)
  from t [where md = ex_maps_both] p
  have "Some (resolved_uri ex_maps_both) = maps_uri ex_maps_both" by blast
  then have b: "resolved_uri ex_maps_both = js ''u''"
    by (simp add: ex_maps_both_def)
  have q: "\<not> truthy (maps_uri (ex_maps_both\<lparr>maps_uri := Some []\<rparr>))"
    "truthy (maps_googleMapsUri (ex_maps_both\<lparr>maps_uri := Some []\<rparr>))"
    by (simp_all add: ex_maps_both_def truthy_def js_def)
  from t [where md = "ex_maps_both\<lparr>maps_uri := Some []\<rparr>"] q
  have "Some (resolved_uri (ex_maps_both\<lparr>maps_uri := Some []\<rparr>))
      = maps_googleMapsUri (ex_maps_both\<lparr>maps_uri := Some []\<rparr>)"
    by blast
  then have c: "resolved_uri (ex_maps_both\<lparr>maps_uri := Some []\<rparr>) = js ''g''"
    by (simp add: ex_maps_both_def)
  from h a p b q c show ?thesis by blast
qed

section \<open>The conversation context\<close>

lemma count_list_filter:
  "count_list (filter P xs) x = (if P x then count_list xs x else 0)"
  by (induction xs) auto

text \<open>
  Claim C4. The history that \<^verbatim>\<open>resumeChat\<close> hands to the new chat is the
  (role, text) image of a subsequence \<open>kept\<close> of the given messages, in which a message
  with \<^verbatim>\<open>isThinking\<close> true or with id \<^verbatim>\<open>welcome\<close> does not occur and every other message
  occurs as often as in the given history.
\<close>

theorem resumeChat_seed_history:
  "\<exists>kept. resumeChat create history cs
       = Some (create (Some (map (\<lambda>m. \<lparr>content_role = msg_role m, parts = [msg_text m]\<rparr>) kept)))
     \<and> subseq kept history
     \<and> (\<forall>m. count_list kept m =
          (if msg_isThinking m = Some True \<or> msg_id m = js ''welcome'' then 0
           else count_list history m))"
proof -
  let ?P = "\<lambda>msg. \<not> (msg_isThinking msg = Some True) \<and> msg_id msg \<noteq> js ''welcome''"
  have "resumeChat create history cs
       = Some (create (Some (map (\<lambda>m. \<lparr>content_role = msg_role m, parts = [msg_text m]\<rparr>)
           (filter ?P history))))"
    by (simp add: resumeChat_def validHistory_def)
  moreover have "subseq (filter ?P history) history" by simp
  moreover have "\<forall>m. count_list (filter ?P history) m =
          (if msg_isThinking m = Some True \<or> msg_id m = js ''welcome'' then 0
           else count_list history m)"
    by (simp add: count_list_filter)
  ultimately show ?thesis by blast
qed

theorem resumeChat_seed_history_witness:
  "\<exists>kept. resumeChat ex_create [welcomeMsg, ex_user_msg, ex_thinking_msg] None
       = Some (Some (map (\<lambda>m. \<lparr>content_role = msg_role m, parts = [msg_text m]\<rparr>) kept))
     \<and> subseq kept [welcomeMsg, ex_user_msg, ex_thinking_msg]
     \<and> count_list kept welcomeMsg = 0 \<and> count_list kept ex_user_msg = 1
     \<and> count_list kept ex_thinking_msg = 0"
proof -
  from resumeChat_seed_history [of ex_create "[welcomeMsg, ex_user_msg, ex_thinking_msg]" None]
  obtain kept where k:
    "resumeChat ex_create [welcomeMsg, ex_user_msg, ex_thinking_msg] None
       = Some (ex_create (Some (map (\<lambda>m. \<lparr>content_role = msg_role m, parts = [msg_text m]\<rparr>) kept)))"
    "subseq kept [welcomeMsg, ex_user_msg, ex_thinking_msg]"
    "\<forall>m. count_list kept m =
          (if msg_isThinking m = Some True \<or> msg_id m = js ''welcome'' then 0
           else count_list [welcomeMsg, ex_user_msg, ex_thinking_msg] m)"
    by blast
  have "count_list kept welcomeMsg = 0"
    using k(3) by (simp add: welcomeMsg_def)
  moreover have "count_list kept ex_thinking_msg = 0"
    using k(3) by (simp add: ex_thinking_msg_def)
  moreover have "count_list kept ex_user_msg = 1"
    using k(3) by (simp add: ex_user_msg_def ex_thinking_msg_def welcomeMsg_def js_def)
  ultimately show ?thesis using k(1,2) by (auto simp: ex_create_def)
qed

text \<open>
  Claim C9. After the fallback the chat context is present, so the result of
  \<^verbatim>\<open>sendMessageToGemini\<close> is never the rejection with
  \<^verbatim>\<open>Failed to initialize chat session\<close>; in fact the call always resolves.
\<close>

theorem sendMessageToGemini_context_present:
  "(if cs = None then startNewChat create cs else cs) \<noteq> None
   \<and> fst (sendMessageToGemini create sendMessage message cs) \<noteq> Inl init_failure
   \<and> (\<exists>r. fst (sendMessageToGemini create sendMessage message cs) = Inr r)"
  by (cases cs)
    (auto simp: sendMessageToGemini_def startNewChat_def Let_def split: prod.splits sum.splits)

text \<open>
  Claim C2. When the send call of the live chat context rejects, whatever the message
  and the error, \<^verbatim>\<open>sendMessageToGemini\<close> resolves to the fixed apology with no places.
  The handler then turns the placeholder message into that text with an empty place
  list and \<^verbatim>\<open>isThinking\<close> false, and clears the loading flag.
\<close>

theorem sendMessageToGemini_provider_error:
  assumes "sendMessage (case chatSession st of None \<Rightarrow> create None | Some chat \<Rightarrow> chat) message
             = (Inl e, chat')"
  shows "sendMessageToGemini create sendMessage message (chatSession st)
       = (Inr \<lparr>res_text = js ''I apologize, but I am unable to access the property database at this moment. Please try again shortly.'',
               res_places = []\<rparr>, Some chat')
    \<and> sessions (handleSendMessage_settle create sendMessage current thinkingMsgId message st)
       = map (\<lambda>session. if session_id session = current then
                 session\<lparr>messages :=
                   map (\<lambda>msg. if msg_id msg = thinkingMsgId then
                         msg\<lparr>msg_text := js ''I apologize, but I am unable to access the property database at this moment. Please try again shortly.'',
                             msg_places := Some [], msg_isThinking := Some False\<rparr>
                       else msg) (messages session)\<rparr>
               else session) (sessions st)
    \<and> isLoading (handleSendMessage_settle create sendMessage current thinkingMsgId message st) = False"
proof -
  have s: "sendMessageToGemini create sendMessage message (chatSession st)
       = (Inr \<lparr>res_text = apology_text, res_places = []\<rparr>, Some chat')"
    using assms
    by (cases "chatSession st") (simp_all add: sendMessageToGemini_def startNewChat_def)
  then show ?thesis
    by (simp add: handleSendMessage_settle_def handleSendMessage_continue_def
        resolve_session_def apology_text_def)
qed

theorem sendMessageToGemini_provider_error_witness:
  "ex_send (case chatSession (initial_state False) of None \<Rightarrow> ex_create None | Some chat \<Rightarrow> chat)
       (js ''fail'') = (Inl (Error (js ''network'')), None)
   \<and> sendMessageToGemini ex_create ex_send (js ''fail'') (chatSession (initial_state False))
       = (Inr \<lparr>res_text = js ''I apologize, but I am unable to access the property database at this moment. Please try again shortly.'',
               res_places = []\<rparr>, Some None)"
proof -
  have h: "ex_send (case chatSession (initial_state False) of None \<Rightarrow> ex_create None | Some chat \<Rightarrow> chat)
       (js ''fail'') = (Inl (Error (js ''network'')), None)"
    by (simp add: ex_send_def ex_create_def initial_state_def)
  from sendMessageToGemini_provider_error
    [where sendMessage = ex_send and st = "initial_state False" and create = ex_create
       and message = "js ''fail''", OF h] h
  show ?thesis by blast
qed

text \<open>
  Claim C10. The text of every result of \<^verbatim>\<open>sendMessageToGemini\<close> is non-empty: an
  absent or empty text of the provider is replaced by the fixed default, a non-empty
  one is passed on, and a rejection of the provider yields the fixed apology.
\<close>

theorem sendMessageToGemini_text_nonempty:
  "(\<forall>r cs'. sendMessageToGemini create sendMessage message cs = (Inr r, cs') \<longrightarrow> res_text r \<noteq> [])
   \<and> (\<forall>result chat'.
         sendMessage (case cs of None \<Rightarrow> create None | Some chat \<Rightarrow> chat) message = (Inr result, chat')
           \<and> (resp_text result = None \<or> resp_text result = Some []) \<longrightarrow>
         fst (sendMessageToGemini create sendMessage message cs)
           = Inr \<lparr>res_text = js ''I've curated a list of properties for you:'',
                  res_places = grounding_places (response_chunks result)\<rparr>)
   \<and> (\<forall>result chat' t.
         sendMessage (case cs of None \<Rightarrow> create None | Some chat \<Rightarrow> chat) message = (Inr result, chat')
           \<and> resp_text result = Some t \<and> t \<noteq> [] \<longrightarrow>
         fst (sendMessageToGemini create sendMessage message cs)
           = Inr \<lparr>res_text = t, res_places = grounding_places (response_chunks result)\<rparr>)
   \<and> (\<forall>e chat'.
         sendMessage (case cs of None \<Rightarrow> create None | Some chat \<Rightarrow> chat) message = (Inl e, chat') \<longrightarrow>
         fst (sendMessageToGemini create sendMessage message cs)
           = Inr \<lparr>res_text = js ''I apologize, but I am unable to access the property database at this moment. Please try again shortly.'',
                  res_places = []\<rparr>)"
proof -
  have ne: "default_text \<noteq> []" "apology_text \<noteq> []"
    by (simp_all add: default_text_def apology_text_def js_def)
  have a: "res_text r \<noteq> []"
    if "sendMessageToGemini create sendMessage message cs = (Inr r, cs')" for r cs'
    using that ne
    by (cases cs)
      (auto simp: sendMessageToGemini_def startNewChat_def str_or_def
            split: prod.splits sum.splits option.splits if_splits)
  show ?thesis
    using a
    by (cases cs)
      (auto simp: sendMessageToGemini_def startNewChat_def str_or_def default_text_def
            apology_text_def)
qed

theorem sendMessageToGemini_text_nonempty_witness:
  "sendMessageToGemini ex_create ex_send [] None
     = (Inr \<lparr>res_text = js ''I've curated a list of properties for you:'', res_places = []\<rparr>,
        Some None)
   \<and> fst (sendMessageToGemini ex_create ex_send (js ''hi'') None)
     = Inr \<lparr>res_text = js ''hi'', res_places = []\<rparr>
   \<and> fst (sendMessageToGemini ex_create ex_send (js ''fail'') None)
     = Inr \<lparr>res_text = js ''I apologize, but I am unable to access the property database at this moment. Please try again shortly.'',
            res_places = []\<rparr>
   \<and> res_text (projr (fst (sendMessageToGemini ex_create ex_send [] None))) \<noteq> []"
proof -
  have s0: "ex_send (case None of None \<Rightarrow> ex_create None | Some chat \<Rightarrow> chat) []
      = (Inr \<lparr>resp_text = None, candidates = None\<rparr>, None)"
    by (simp add: ex_send_def ex_create_def js_def)
  have s1: "ex_send (case None of None \<Rightarrow> ex_create None | Some chat \<Rightarrow> chat) (js ''hi'')
      = (Inr \<lparr>resp_text = Some (js ''hi''), candidates = None\<rparr>, None)"
    by (simp add: ex_send_def ex_create_def js_def)
  have s2: "ex_send (case None of None \<Rightarrow> ex_create None | Some chat \<Rightarrow> chat) (js ''fail'')
      = (Inl (Error (js ''network'')), None)"
    by (simp add: ex_send_def ex_create_def)
  have g: "grounding_places (response_chunks \<lparr>resp_text = t, candidates = None\<rparr>) = []" for t
    by (simp add: grounding_places_def response_chunks_def extract_places_def uniquePlaces_def)
  have e0: "sendMessageToGemini ex_create ex_send [] None
     = (Inr \<lparr>res_text = js ''I've curated a list of properties for you:'', res_places = []\<rparr>,
        Some None)"
    using s0 g
    by (simp add: sendMessageToGemini_def startNewChat_def str_or_def default_text_def)
  have n0: "res_text (projr (fst (sendMessageToGemini ex_create ex_send [] None))) \<noteq> []"
    using sendMessageToGemini_text_nonempty [of ex_create ex_send "[]" None] e0 by simp
  have e1: "fst (sendMessageToGemini ex_create ex_send (js ''hi'') None)
     = Inr \<lparr>res_text = js ''hi'', res_places = []\<rparr>"
    using sendMessageToGemini_text_nonempty [of ex_create ex_send "js ''hi''" None] s1 g
    by (simp add: js_def)
  have e2: "fst (sendMessageToGemini ex_create ex_send (js ''fail'') None)
     = Inr \<lparr>res_text = js ''I apologize, but I am unable to access the property database at this moment. Please try again shortly.'',
            res_places = []\<rparr>"
    using sendMessageToGemini_text_nonempty [of ex_create ex_send "js ''fail''" None] s2
    by simp
  from e0 n0 e1 e2 show ?thesis by blast
qed


section \<open>The session store\<close>

subsection \<open>The example run\<close>

lemma ex_loaded_eval:
  "sessions ex_loaded = [newSession (js ''s1'') 1 1]"
  "currentSessionId ex_loaded = Some (js ''s1'')"
  by (simp_all add: ex_loaded_def parseAndLoadSessions_def createNewSession_def Let_def
      initial_state_def)

lemma ex_two_eval:
  "sessions ex_two = [newSession (js ''s2'') 2 2, newSession (js ''s1'') 1 1]"
  "currentSessionId ex_two = Some (js ''s2'')"
  by (simp_all add: ex_two_def createNewSession_def Let_def ex_loaded_eval)

lemma ex_reachable:
  "reachable ex_create ex_send ex_parse ex_loaded"
  "reachable ex_create ex_send ex_parse ex_two"
  unfolding ex_two_def ex_loaded_def
  by (intro reachable_step reachable_init)+

lemma ex_typed_eval:
  "sessions ex_typed = [newSession (js ''s1'') 1 1]"
  "currentSessionId ex_typed = Some (js ''s1'')"
  "inputText ex_typed = js '' hi ''" "isLoading ex_typed = False"
  by (simp_all add: ex_typed_def ex_loaded_eval)
    (simp add: ex_loaded_def parseAndLoadSessions_def createNewSession_def Let_def
      initial_state_def)

lemma ex_submit_eval:
  "handleSendMessage_submit (js ''m1'') (js ''m2'') 5 ex_typed
     = Some (js ''s1'', js ''hi'', ex_submitted)"
  by (simp add: ex_submitted_def handleSendMessage_submit_def ex_typed_eval trim_def
      is_js_whitespace_def Let_def js_def)

lemma ex_awaiting_eval:
  "sessions ex_awaiting = sessions ex_submitted"
  "isLoading ex_awaiting"
  "pending ex_awaiting
     = Some (js ''s1'', js ''m2'', Inr \<lparr>res_text = js ''hi'', res_places = []\<rparr>)"
proof -
  have c: "chatSession ex_submitted = Some None"
    by (simp add: ex_submitted_def ex_typed_def ex_loaded_def parseAndLoadSessions_def
        createNewSession_def Let_def initial_state_def startNewChat_def ex_create_def)
  have g: "sendMessageToGemini ex_create ex_send (js ''hi'') (Some None)
      = (Inr \<lparr>res_text = js ''hi'', res_places = []\<rparr>, Some None)"
    by (simp add: sendMessageToGemini_def ex_send_def str_or_def js_def grounding_places_def
        response_chunks_def extract_places_def uniquePlaces_def)
  show "sessions ex_awaiting = sessions ex_submitted"
    "isLoading ex_awaiting"
    "pending ex_awaiting
       = Some (js ''s1'', js ''m2'', Inr \<lparr>res_text = js ''hi'', res_places = []\<rparr>)"
    by (simp_all add: ex_awaiting_def ex_submit_eval c g) (simp add: ex_submitted_def)
qed

subsection \<open>The active session is a stored session\<close>

lemma createNewSession_sessions:
  "sessions (createNewSession create newId now1 now2 st) = newSession newId now1 now2 # sessions st"
  "currentSessionId (createNewSession create newId now1 now2 st) = Some newId"
  by (simp_all add: createNewSession_def Let_def)

lemma session_id_newSession: "session_id (newSession newId now1 now2) = newId"
  by (simp add: newSession_def)

lemma active_createNewSession: "active_in_store (createNewSession create newId now1 now2 st)"
  by (simp add: active_in_store_def createNewSession_sessions session_id_newSession)

lemma active_parseAndLoadSessions:
  "active_in_store (parseAndLoadSessions JSON_parse create raw newId now1 now2 st)"
proof -
  have "active_in_store
          (st\<lparr>sessions := m # rest, currentSessionId := Some (session_id m), chatSession := c\<rparr>)"
    for m rest c
    by (simp add: active_in_store_def)
  then show ?thesis
    by (simp add: parseAndLoadSessions_def Let_def active_createNewSession
        split: option.splits sum.splits list.splits)
qed

lemma active_deleteSession:
  assumes "active_in_store st"
  shows "active_in_store (deleteSession create ident newId now1 now2 st)"
proof (cases "currentSessionId st = Some ident")
  case True
  show ?thesis
  proof (cases "filter (\<lambda>s. session_id s \<noteq> ident) (sessions st)")
    case Nil
    with True show ?thesis
      by (simp add: deleteSession_def Let_def active_createNewSession)
  next
    case (Cons first rest)
    with True show ?thesis
      by (simp add: deleteSession_def Let_def active_in_store_def)
  qed
next
  case False
  then have d: "deleteSession create ident newId now1 now2 st
      = st\<lparr>sessions := filter (\<lambda>s. session_id s \<noteq> ident) (sessions st)\<rparr>"
    by (simp add: deleteSession_def Let_def)
  show ?thesis
  proof (cases "sessions st = []")
    case True
    with d show ?thesis by (simp add: active_in_store_def)
  next
    case ne: False
    with assms obtain c where c: "currentSessionId st = Some c" "c \<in> session_id ` set (sessions st)"
      by (auto simp: active_in_store_def)
    with False have "c \<noteq> ident" by simp
    with c(2) have "c \<in> session_id ` set (filter (\<lambda>s. session_id s \<noteq> ident) (sessions st))"
      by auto
    with c(1) d show ?thesis by (simp add: active_in_store_def)
  qed
qed

lemma active_onSelectSession:
  assumes "active_in_store st"
  shows "active_in_store (onSelectSession create ident st)"
proof (cases "find (\<lambda>x. session_id x = ident) (sessions st)")
  case None
  with assms show ?thesis by (simp add: onSelectSession_def Let_def active_in_store_def)
next
  case (Some s)
  then have "s \<in> set (sessions st)" "session_id s = ident"
    by (auto simp: find_Some_iff)
  then have "ident \<in> session_id ` set (sessions st)" by auto
  with Some show ?thesis by (simp add: onSelectSession_def Let_def active_in_store_def)
qed

lemma session_id_updates:
  "session_id (submit_session current userText now userMsg thinkingMsg s) = session_id s"
  "session_id (resolve_session current thinkingMsgId response s) = session_id s"
  "session_id (fail_session current thinkingMsgId s) = session_id s"
  by (simp_all add: submit_session_def resolve_session_def fail_session_def)

lemma active_map:
  assumes "active_in_store st" and "\<And>s. session_id (f s) = session_id s"
    and "sessions st' = map f (sessions st)" and "currentSessionId st' = currentSessionId st"
  shows "active_in_store st'"
proof -
  have "session_id ` set (map f (sessions st)) = session_id ` set (sessions st)"
    using assms(2) by (auto simp: image_iff) 
  with assms show ?thesis by (auto simp: active_in_store_def)
qed

lemma handleSendMessage_submit_Some:
  assumes "handleSendMessage_submit userMsgId thinkingMsgId now st = Some (current, userText, st1)"
  shows "currentSessionId st = Some current \<and> userText = trim (inputText st)
    \<and> sessions st1
        = map (submit_session current userText now
                 \<lparr>msg_id = userMsgId, msg_role = User, msg_text = userText,
                   msg_places = None, msg_isThinking = None\<rparr>
                 \<lparr>msg_id = thinkingMsgId, msg_role = Model, msg_text = [],
                   msg_places = None, msg_isThinking = Some True\<rparr>) (sessions st)
    \<and> currentSessionId st1 = currentSessionId st \<and> isLoading st1"
proof (cases "currentSessionId st")
  case None
  with assms show ?thesis by (simp add: handleSendMessage_submit_def)
next
  case (Some c)
  with assms show ?thesis
    by (auto simp: handleSendMessage_submit_def Let_def split: if_splits)
qed

lemma active_submit:
  assumes "active_in_store st"
    and "handleSendMessage_submit userMsgId thinkingMsgId now st = Some (current, userText, st1)"
  shows "active_in_store st1"
proof -
  let ?um = "\<lparr>msg_id = userMsgId, msg_role = User, msg_text = userText,
              msg_places = None, msg_isThinking = None\<rparr>"
  let ?tm = "\<lparr>msg_id = thinkingMsgId, msg_role = Model, msg_text = [],
              msg_places = None, msg_isThinking = Some True\<rparr>"
  from handleSendMessage_submit_Some [OF assms(2)]
  have "sessions st1 = map (submit_session current userText now ?um ?tm) (sessions st)"
    "currentSessionId st1 = currentSessionId st"
    by simp_all
  with assms(1) show ?thesis
    using active_map [of st "submit_session current userText now ?um ?tm" st1]
    by (simp add: session_id_updates)
qed

lemma continue_sessions:
  "(\<exists>r. sessions (handleSendMessage_continue current thinkingMsgId awaited st)
          = map (resolve_session current thinkingMsgId r) (sessions st))
   \<or> sessions (handleSendMessage_continue current thinkingMsgId awaited st)
          = map (fail_session current thinkingMsgId) (sessions st)"
  "currentSessionId (handleSendMessage_continue current thinkingMsgId awaited st)
     = currentSessionId st"
proof -
  show "(\<exists>r. sessions (handleSendMessage_continue current thinkingMsgId awaited st)
          = map (resolve_session current thinkingMsgId r) (sessions st))
   \<or> sessions (handleSendMessage_continue current thinkingMsgId awaited st)
          = map (fail_session current thinkingMsgId) (sessions st)"
  proof (cases awaited)
    case (Inl e)
    then show ?thesis by (simp add: handleSendMessage_continue_def)
  next
    case (Inr r)
    then have "sessions (handleSendMessage_continue current thinkingMsgId awaited st)
          = map (resolve_session current thinkingMsgId r) (sessions st)"
      by (simp add: handleSendMessage_continue_def)
    then show ?thesis by blast
  qed
  show "currentSessionId (handleSendMessage_continue current thinkingMsgId awaited st)
     = currentSessionId st"
    by (cases awaited) (simp_all add: handleSendMessage_continue_def)
qed

lemma active_continue:
  assumes "active_in_store st"
  shows "active_in_store (handleSendMessage_continue current thinkingMsgId awaited st)"
proof -
  let ?st' = "handleSendMessage_continue current thinkingMsgId awaited st"
  note c = continue_sessions(2) [of current thinkingMsgId awaited st]
  from continue_sessions(1) [of current thinkingMsgId awaited st] show ?thesis
  proof
    assume "\<exists>r. sessions ?st' = map (resolve_session current thinkingMsgId r) (sessions st)"
    then obtain r where "sessions ?st' = map (resolve_session current thinkingMsgId r) (sessions st)" ..
    with assms c show ?thesis
      using active_map [of st "resolve_session current thinkingMsgId r" ?st']
      by (simp add: session_id_updates)
  next
    assume "sessions ?st' = map (fail_session current thinkingMsgId) (sessions st)"
    with assms c show ?thesis
      using active_map [of st "fail_session current thinkingMsgId" ?st']
      by (simp add: session_id_updates)
  qed
qed

lemma active_in_store_cong:
  "sessions st' = sessions st \<Longrightarrow> currentSessionId st' = currentSessionId st
     \<Longrightarrow> active_in_store st' = active_in_store st"
  by (simp add: active_in_store_def)

lemma step_Submit:
  "handleSendMessage_submit userMsgId thinkingMsgId now st = None \<Longrightarrow>
     step create sendMessage JSON_parse (Submit userMsgId thinkingMsgId now) st = st"
  "handleSendMessage_submit userMsgId thinkingMsgId now st = Some (current, userText, st1) \<Longrightarrow>
     sessions (step create sendMessage JSON_parse (Submit userMsgId thinkingMsgId now) st)
       = sessions st1
     \<and> currentSessionId (step create sendMessage JSON_parse (Submit userMsgId thinkingMsgId now) st)
       = currentSessionId st1"
  by (simp_all split: prod.splits)

lemma step_Settle:
  "(\<exists>c t a. sessions (step create sendMessage JSON_parse Settle st)
        = sessions (handleSendMessage_continue c t a st))
   \<or> sessions (step create sendMessage JSON_parse Settle st) = sessions st"
  "currentSessionId (step create sendMessage JSON_parse Settle st) = currentSessionId st"
proof -
  show "(\<exists>c t a. sessions (step create sendMessage JSON_parse Settle st)
        = sessions (handleSendMessage_continue c t a st))
   \<or> sessions (step create sendMessage JSON_parse Settle st) = sessions st"
  proof (cases "pending st")
    case None
    then show ?thesis by simp
  next
    case (Some p)
    obtain c t a where "p = (c, t, a)" by (cases p) auto
    with Some have "sessions (step create sendMessage JSON_parse Settle st)
        = sessions (handleSendMessage_continue c t a st)"
      by simp
    then show ?thesis by blast
  qed
  show "currentSessionId (step create sendMessage JSON_parse Settle st) = currentSessionId st"
  proof (cases "pending st")
    case None
    then show ?thesis by simp
  next
    case (Some p)
    obtain c t a where "p = (c, t, a)" by (cases p) auto
    with Some show ?thesis by (simp add: continue_sessions(2))
  qed
qed

lemma active_step:
  assumes "active_in_store st"
  shows "active_in_store (step create sendMessage JSON_parse ev st)"
proof (cases ev)
  case (Load raw newId now1 now2)
  then show ?thesis by (simp add: active_parseAndLoadSessions)
next
  case (NewChat newId now1 now2)
  then show ?thesis by (simp add: active_createNewSession)
next
  case (Delete ident newId now1 now2)
  with assms show ?thesis by (simp add: active_deleteSession)
next
  case (Select ident)
  with assms show ?thesis by (simp add: active_onSelectSession)
next
  case (SetInput t)
  with assms show ?thesis by (simp add: active_in_store_def)
next
  case (Submit userMsgId thinkingMsgId now)
  show ?thesis
  proof (cases "handleSendMessage_submit userMsgId thinkingMsgId now st")
    case None
    from step_Submit(1) [OF None, of create sendMessage JSON_parse] Submit assms
    show ?thesis by simp
  next
    case (Some r)
    then obtain current userText st1 where
      r: "handleSendMessage_submit userMsgId thinkingMsgId now st = Some (current, userText, st1)"
      by (cases r) auto
    from active_submit [OF assms r] have a: "active_in_store st1" .
    from step_Submit(2) [OF r, of create sendMessage JSON_parse]
    have "active_in_store (step create sendMessage JSON_parse (Submit userMsgId thinkingMsgId now) st)
        = active_in_store st1"
      by (intro active_in_store_cong) simp_all
    with a Submit show ?thesis by simp
  qed
next
  case Settle
  show ?thesis
  proof (cases "pending st")
    case None
    with Settle assms show ?thesis by simp
  next
    case (Some p)
    obtain c t a where p: "p = (c, t, a)" by (cases p) auto
    have "active_in_store (handleSendMessage_continue c t a st)"
      using assms by (rule active_continue)
    then have "active_in_store ((handleSendMessage_continue c t a st)\<lparr>pending := None\<rparr>)"
      by (simp add: active_in_store_def)
    with Settle Some p show ?thesis by simp
  qed
next
  case (CredentialLogin decoded)
  with assms show ?thesis
    by (simp add: handleCredentialResponse_def active_in_store_def split: sum.splits)
next
  case GuestLogin
  with assms show ?thesis by (simp add: handleGuestLogin_def active_in_store_def)
next
  case Logout
  then show ?thesis by (simp add: handleLogout_def active_in_store_def)
next
  case (Resize mobile)
  with assms show ?thesis by (cases mobile) (simp_all add: handleResize_def active_in_store_def)
qed

lemma reachable_active:
  "reachable create sendMessage JSON_parse st \<Longrightarrow> active_in_store st"
proof (induction rule: reachable.induct)
  case (reachable_init mobile)
  then show ?case by (simp add: active_in_store_def initial_state_def)
next
  case (reachable_step st ev)
  then show ?case by (simp add: active_step)
qed

text \<open>
  Claim C6. In every state that the operations can reach from the initial state:
  deleting the only stored session leaves exactly one session, the default session just
  created (title \<^verbatim>\<open>New Search\<close>, the welcome message alone), which is active; deleting the
  active session while others remain makes the first remaining session active and
  resumes the context from its messages; and no deletion empties a non-empty store.
\<close>

theorem deleteSession_last_session:
  assumes "reachable create sendMessage JSON_parse st"
  shows "(sessions st = [s] \<longrightarrow>
            sessions (deleteSession create (session_id s) newId now1 now2 st)
              = [newSession newId now1 now2]
          \<and> currentSessionId (deleteSession create (session_id s) newId now1 now2 st) = Some newId
          \<and> session_title (newSession newId now1 now2) = js ''New Search''
          \<and> messages (newSession newId now1 now2) = [welcomeMsg])
     \<and> (currentSessionId st = Some ident
          \<and> filter (\<lambda>x. session_id x \<noteq> ident) (sessions st) = first # rest \<longrightarrow>
            sessions (deleteSession create ident newId now1 now2 st) = first # rest
          \<and> currentSessionId (deleteSession create ident newId now1 now2 st)
              = Some (session_id first)
          \<and> chatSession (deleteSession create ident newId now1 now2 st)
              = resumeChat create (messages first) (chatSession st))
     \<and> (sessions st \<noteq> [] \<longrightarrow> sessions (deleteSession create ident newId now1 now2 st) \<noteq> [])"
proof -
  from assms have inv: "active_in_store st" by (rule reachable_active)
  have one: "sessions (deleteSession create (session_id s) newId now1 now2 st)
              = [newSession newId now1 now2]
          \<and> currentSessionId (deleteSession create (session_id s) newId now1 now2 st) = Some newId"
    if s: "sessions st = [s]"
  proof -
    from inv s have "currentSessionId st = Some (session_id s)"
      by (auto simp: active_in_store_def)
    with s show ?thesis
      by (simp add: deleteSession_def Let_def createNewSession_sessions)
  qed
  have new: "session_title (newSession newId now1 now2) = js ''New Search''"
    "messages (newSession newId now1 now2) = [welcomeMsg]"
    by (simp_all add: newSession_def)
  have act: "sessions (deleteSession create ident newId now1 now2 st) = first # rest
          \<and> currentSessionId (deleteSession create ident newId now1 now2 st)
              = Some (session_id first)
          \<and> chatSession (deleteSession create ident newId now1 now2 st)
              = resumeChat create (messages first) (chatSession st)"
    if "currentSessionId st = Some ident"
      "filter (\<lambda>x. session_id x \<noteq> ident) (sessions st) = first # rest"
    using that by (simp add: deleteSession_def Let_def)
  have nz: "sessions (deleteSession create ident newId now1 now2 st) \<noteq> []"
    if ne: "sessions st \<noteq> []"
  proof (cases "currentSessionId st = Some ident")
    case True
    then show ?thesis
      by (cases "filter (\<lambda>x. session_id x \<noteq> ident) (sessions st)")
        (simp_all add: deleteSession_def Let_def createNewSession_sessions)
  next
    case False
    from inv ne obtain c where c: "currentSessionId st = Some c" "c \<in> session_id ` set (sessions st)"
      by (auto simp: active_in_store_def)
    with False have "c \<noteq> ident" by simp
    with c(2) have "filter (\<lambda>x. session_id x \<noteq> ident) (sessions st) \<noteq> []"
      by (auto simp: filter_empty_conv)
    with False show ?thesis by (simp add: deleteSession_def Let_def)
  qed
  from one new act nz show ?thesis by blast
qed

theorem deleteSession_last_session_witness:
  "reachable ex_create ex_send ex_parse ex_loaded
   \<and> sessions ex_loaded = [newSession (js ''s1'') 1 1]
   \<and> sessions (deleteSession ex_create (session_id (newSession (js ''s1'') 1 1)) (js ''s3'') 3 3 ex_loaded)
       = [newSession (js ''s3'') 3 3]
   \<and> reachable ex_create ex_send ex_parse ex_two
   \<and> currentSessionId ex_two = Some (js ''s2'')
   \<and> filter (\<lambda>x. session_id x \<noteq> js ''s2'') (sessions ex_two) = [newSession (js ''s1'') 1 1]
   \<and> currentSessionId (deleteSession ex_create (js ''s2'') (js ''s3'') 3 3 ex_two) = Some (js ''s1'')
   \<and> sessions (deleteSession ex_create (js ''s2'') (js ''s3'') 3 3 ex_two) \<noteq> []"
proof -
  have f: "filter (\<lambda>x. session_id x \<noteq> js ''s2'') (sessions ex_two) = [newSession (js ''s1'') 1 1]"
    by (simp add: ex_two_eval newSession_def js_def)
  have n: "sessions ex_two \<noteq> []" by (simp add: ex_two_eval)
  from deleteSession_last_session
    [OF ex_reachable(1), of "newSession (js ''s1'') 1 1" "js ''s3''" 3 3]
  have a: "sessions (deleteSession ex_create (session_id (newSession (js ''s1'') 1 1)) (js ''s3'') 3 3 ex_loaded)
       = [newSession (js ''s3'') 3 3]"
    using ex_loaded_eval(1) by blast
  from deleteSession_last_session
    [OF ex_reachable(2), where ident = "js ''s2''" and first = "newSession (js ''s1'') 1 1"
       and rest = "[]" and newId = "js ''s3''" and ?now1.0 = 3 and ?now2.0 = 3]
  have b: "currentSessionId (deleteSession ex_create (js ''s2'') (js ''s3'') 3 3 ex_two)
        = Some (session_id (newSession (js ''s1'') 1 1))
      \<and> sessions (deleteSession ex_create (js ''s2'') (js ''s3'') 3 3 ex_two) \<noteq> []"
    using ex_two_eval(2) f n by blast
  from a b f ex_reachable ex_loaded_eval ex_two_eval show ?thesis
    by (simp add: newSession_def)
qed

subsection \<open>Loading\<close>

lemma sort_desc_first:
  assumes "sort_key (\<lambda>a. - lastUpdated a) ps = m # rest"
  shows "m \<in> set ps \<and> (\<forall>s\<in>set ps. lastUpdated s \<le> lastUpdated m)"
proof -
  have st: "set ps = set (m # rest)"
    using assms set_sort [of "\<lambda>a. - lastUpdated a" ps] by simp
  have "sorted (map (\<lambda>a. - lastUpdated a) (m # rest))"
    using assms sorted_sort_key [of "\<lambda>a. - lastUpdated a" ps] by simp
  then have "\<forall>x\<in>set rest. lastUpdated x \<le> lastUpdated m" by auto
  with st show ?thesis by auto
qed

lemma parseAndLoadSessions_parsed:
  assumes "j \<noteq> []" and "JSON_parse j = Inr ps" and "ps \<noteq> []"
  shows "\<exists>m rest. sort_key (\<lambda>a. - lastUpdated a) ps = m # rest
      \<and> parseAndLoadSessions JSON_parse create (Some j) newId now1 now2 st
        = st\<lparr>sessions := m # rest, currentSessionId := Some (session_id m),
             chatSession := resumeChat create (messages m) (chatSession st)\<rparr>"
proof -
  have "length (sort_key (\<lambda>a. - lastUpdated a) ps) = length ps" by simp
  with assms(3) obtain m rest where s: "sort_key (\<lambda>a. - lastUpdated a) ps = m # rest"
    by (cases "sort_key (\<lambda>a. - lastUpdated a) ps") auto
  with assms show ?thesis
    by (simp add: parseAndLoadSessions_def Let_def)
qed

text \<open>
  Claim C8, as amended. With an empty store, an absent or empty input or an input
  that does not parse leaves exactly the default session (title \<^verbatim>\<open>New Search\<close>, the
  welcome message alone), active; an input parsed to the empty list does so whatever
  the store held. An input parsed to one or more sessions makes a session of maximal
  \<^verbatim>\<open>lastUpdated\<close> active, resumes the context from its messages and stores the parsed
  sessions.
\<close>

theorem parseAndLoadSessions_outcome:
  "(sessions st = [] \<and> (raw = None \<or> raw = Some [] \<or> (\<exists>j e. raw = Some j \<and> JSON_parse j = Inl e))
      \<longrightarrow> sessions (parseAndLoadSessions JSON_parse create raw newId now1 now2 st)
            = [newSession newId now1 now2]
        \<and> currentSessionId (parseAndLoadSessions JSON_parse create raw newId now1 now2 st)
            = Some newId)
   \<and> ((\<exists>j. raw = Some j \<and> j \<noteq> [] \<and> JSON_parse j = Inr [])
      \<longrightarrow> sessions (parseAndLoadSessions JSON_parse create raw newId now1 now2 st)
            = [newSession newId now1 now2]
        \<and> currentSessionId (parseAndLoadSessions JSON_parse create raw newId now1 now2 st)
            = Some newId)
   \<and> session_title (newSession newId now1 now2) = js ''New Search''
   \<and> messages (newSession newId now1 now2) = [welcomeMsg]
   \<and> (\<forall>j ps. raw = Some j \<and> j \<noteq> [] \<and> JSON_parse j = Inr ps \<and> ps \<noteq> []
      \<longrightarrow> (\<exists>m\<in>set ps. (\<forall>s\<in>set ps. lastUpdated s \<le> lastUpdated m)
            \<and> currentSessionId (parseAndLoadSessions JSON_parse create raw newId now1 now2 st)
                = Some (session_id m)
            \<and> chatSession (parseAndLoadSessions JSON_parse create raw newId now1 now2 st)
                = resumeChat create (messages m) (chatSession st)
            \<and> set (sessions (parseAndLoadSessions JSON_parse create raw newId now1 now2 st))
                = set ps))"
proof -
  let ?st' = "parseAndLoadSessions JSON_parse create raw newId now1 now2 st"
  have a: "sessions ?st' = [newSession newId now1 now2] \<and> currentSessionId ?st' = Some newId"
    if "sessions st = []" "raw = None \<or> raw = Some [] \<or> (\<exists>j e. raw = Some j \<and> JSON_parse j = Inl e)"
    using that
    by (auto simp: parseAndLoadSessions_def createNewSession_sessions)
  have b: "sessions ?st' = [newSession newId now1 now2] \<and> currentSessionId ?st' = Some newId"
    if "\<exists>j. raw = Some j \<and> j \<noteq> [] \<and> JSON_parse j = Inr []"
    using that
    by (auto simp: parseAndLoadSessions_def createNewSession_sessions)
  have n: "session_title (newSession newId now1 now2) = js ''New Search''"
    "messages (newSession newId now1 now2) = [welcomeMsg]"
    by (simp_all add: newSession_def)
  have c: "\<exists>m\<in>set ps. (\<forall>s\<in>set ps. lastUpdated s \<le> lastUpdated m)
            \<and> currentSessionId ?st' = Some (session_id m)
            \<and> chatSession ?st' = resumeChat create (messages m) (chatSession st)
            \<and> set (sessions ?st') = set ps"
    if h: "raw = Some j" "j \<noteq> []" "JSON_parse j = Inr ps" "ps \<noteq> []" for j ps
  proof -
    from parseAndLoadSessions_parsed
      [where JSON_parse = JSON_parse and j = j and ps = ps and create = create
         and newId = newId and ?now1.0 = now1 and ?now2.0 = now2 and st = st, OF h(2,3,4)]
    obtain m rest where s: "sort_key (\<lambda>a. - lastUpdated a) ps = m # rest"
      and e: "parseAndLoadSessions JSON_parse create (Some j) newId now1 now2 st
        = st\<lparr>sessions := m # rest, currentSessionId := Some (session_id m),
             chatSession := resumeChat create (messages m) (chatSession st)\<rparr>"
      by blast
    from sort_desc_first [OF s]
    have m: "m \<in> set ps" "\<forall>s\<in>set ps. lastUpdated s \<le> lastUpdated m" by simp_all
    have "set (m # rest) = set ps"
      using s set_sort [of "\<lambda>a. - lastUpdated a" ps] by simp
    with e h(1) m show ?thesis by auto
  qed
  from a b n c show ?thesis by blast
qed

theorem parseAndLoadSessions_outcome_witness:
  "sessions (initial_state False :: (Content list option) app_state) = []
   \<and> sessions (parseAndLoadSessions ex_parse ex_create None (js ''s1'') 1 1 (initial_state False))
       = [newSession (js ''s1'') 1 1]
   \<and> ex_parse (js ''[]'') = Inr []
   \<and> sessions (parseAndLoadSessions ex_parse ex_create (Some (js ''[]'')) (js ''s3'') 3 3 ex_two)
       = [newSession (js ''s3'') 3 3]
   \<and> ex_parse (js ''stored'') = Inr ex_stored \<and> ex_stored \<noteq> []
   \<and> (\<exists>m\<in>set ex_stored. (\<forall>s\<in>set ex_stored. lastUpdated s \<le> lastUpdated m)
        \<and> currentSessionId
             (parseAndLoadSessions ex_parse ex_create (Some (js ''stored'')) (js ''s3'') 3 3 ex_two)
           = Some (session_id m))
   \<and> currentSessionId
        (parseAndLoadSessions ex_parse ex_create (Some (js ''stored'')) (js ''s3'') 3 3 ex_two)
      = Some (js ''b'')"
proof -
  have e: "sessions (initial_state False :: (Content list option) app_state) = []"
    by (simp add: initial_state_def)
  have p0: "ex_parse (js ''[]'') = Inr []" "js ''[]'' \<noteq> []"
    by (simp_all add: ex_parse_def js_def)
  have p1: "ex_parse (js ''stored'') = Inr ex_stored" "js ''stored'' \<noteq> []" "ex_stored \<noteq> []"
    by (simp_all add: ex_parse_def js_def ex_stored_def)
  from parseAndLoadSessions_outcome
    [where st = "initial_state False :: (Content list option) app_state" and raw = None
       and JSON_parse = ex_parse and create = ex_create and newId = "js ''s1''"
       and ?now1.0 = 1 and ?now2.0 = 1]
  have a: "sessions (parseAndLoadSessions ex_parse ex_create None (js ''s1'') 1 1 (initial_state False))
       = [newSession (js ''s1'') 1 1]"
    using e by blast
  from parseAndLoadSessions_outcome
    [where st = ex_two and raw = "Some (js ''[]'')"
       and JSON_parse = ex_parse and create = ex_create and newId = "js ''s3''"
       and ?now1.0 = 3 and ?now2.0 = 3]
  have b: "sessions (parseAndLoadSessions ex_parse ex_create (Some (js ''[]'')) (js ''s3'') 3 3 ex_two)
       = [newSession (js ''s3'') 3 3]"
    using p0 by blast
  from parseAndLoadSessions_outcome
    [where st = ex_two and raw = "Some (js ''stored'')"
       and JSON_parse = ex_parse and create = ex_create and newId = "js ''s3''"
       and ?now1.0 = 3 and ?now2.0 = 3]
  have c: "\<exists>m\<in>set ex_stored. (\<forall>s\<in>set ex_stored. lastUpdated s \<le> lastUpdated m)
        \<and> currentSessionId
             (parseAndLoadSessions ex_parse ex_create (Some (js ''stored'')) (js ''s3'') 3 3 ex_two)
           = Some (session_id m)"
    using p1 by blast
  then have d: "currentSessionId
        (parseAndLoadSessions ex_parse ex_create (Some (js ''stored'')) (js ''s3'') 3 3 ex_two)
      = Some (js ''b'')"
    by (auto simp: ex_stored_def)
  from e a p0 b p1 c d show ?thesis by blast
qed

text \<open>
  Claim C8 as stated fails when the store is not empty: loading an absent value into a
  store that holds one session prepends the default session, and two sessions exist.
\<close>

theorem parseAndLoadSessions_two_sessions:
  "length (sessions (parseAndLoadSessions ex_parse ex_create None (js ''s2'') 2 2
      (createNewSession ex_create (js ''s1'') 1 1 (initial_state False)))) = 2"
  by (simp add: parseAndLoadSessions_def createNewSession_sessions initial_state_def)

section \<open>Turns\<close>

subsection \<open>What the operations do to the stored sessions\<close>

lemma lastUpdated_updates:
  "lastUpdated (resolve_session current thinkingMsgId response s) = lastUpdated s"
  "lastUpdated (fail_session current thinkingMsgId s) = lastUpdated s"
  "lastUpdated (submit_session current userText now userMsg thinkingMsg s)
     = (if session_id s = current then now else lastUpdated s)"
  by (simp_all add: submit_session_def resolve_session_def fail_session_def)

lemma session_title_updates:
  "session_title (resolve_session current thinkingMsgId response s) = session_title s"
  "session_title (fail_session current thinkingMsgId s) = session_title s"
  by (simp_all add: resolve_session_def fail_session_def)

lemma settle_sessions:
  "(\<exists>r. sessions (handleSendMessage_settle create sendMessage current thinkingMsgId userText st)
          = map (resolve_session current thinkingMsgId r) (sessions st))
   \<or> sessions (handleSendMessage_settle create sendMessage current thinkingMsgId userText st)
          = map (fail_session current thinkingMsgId) (sessions st)"
  by (auto simp: handleSendMessage_settle_def handleSendMessage_continue_def
      split: prod.splits sum.splits)

lemma settle_lastUpdated:
  "map lastUpdated (sessions (handleSendMessage_settle create sendMessage current thinkingMsgId userText st))
     = map lastUpdated (sessions st)"
  "map session_id (sessions (handleSendMessage_settle create sendMessage current thinkingMsgId userText st))
     = map session_id (sessions st)"
  using settle_sessions [of create sendMessage current thinkingMsgId userText st]
  by (auto simp: lastUpdated_updates session_id_updates)

lemma same_but_messages_updates:
  "same_but_messages (resolve_session current thinkingMsgId response s) s"
  "same_but_messages (fail_session current thinkingMsgId s) s"
  "same_but_messages s s"
  by (simp_all add: same_but_messages_def resolve_session_def fail_session_def)

lemma store_frame_same: "store_frame B before before"
proof -
  have "list_all2 same_but_messages before before"
    by (rule list_all2_refl) (rule same_but_messages_updates(3))
  then have "before = [] @ before \<and> set [] \<subseteq> B \<and> subseq before before
      \<and> list_all2 same_but_messages before before"
    by simp
  then show ?thesis unfolding store_frame_def by blast
qed

lemma store_frame_cons: "n \<in> B \<Longrightarrow> store_frame B before (n # before)"
proof -
  assume n: "n \<in> B"
  have "list_all2 same_but_messages before before"
    by (rule list_all2_refl) (rule same_but_messages_updates(3))
  with n have "n # before = [n] @ before \<and> set [n] \<subseteq> B \<and> subseq before before
      \<and> list_all2 same_but_messages before before"
    by simp
  then show ?thesis unfolding store_frame_def by blast
qed

lemma store_frame_new: "set pre \<subseteq> B \<Longrightarrow> store_frame B before pre"
proof -
  assume "set pre \<subseteq> B"
  then have "pre = pre @ [] \<and> set pre \<subseteq> B \<and> subseq [] before
      \<and> list_all2 same_but_messages [] []"
    by simp
  then show ?thesis unfolding store_frame_def by blast
qed

lemma store_frame_filter: "store_frame B before (filter P before)"
proof -
  have "list_all2 same_but_messages (filter P before) (filter P before)"
    by (rule list_all2_refl) (rule same_but_messages_updates(3))
  then have "filter P before = [] @ filter P before \<and> set [] \<subseteq> B
      \<and> subseq (filter P before) before
      \<and> list_all2 same_but_messages (filter P before) (filter P before)"
    by simp
  then show ?thesis unfolding store_frame_def by blast
qed

lemma store_frame_map:
  assumes "\<And>s. same_but_messages (f s) s"
  shows "store_frame B before (map f before)"
proof -
  have "list_all2 same_but_messages (map f before) before"
    using assms by (simp add: list_all2_map1 list_all2_refl)
  then have "map f before = [] @ map f before \<and> set [] \<subseteq> B \<and> subseq before before
      \<and> list_all2 same_but_messages (map f before) before"
    by simp
  then show ?thesis unfolding store_frame_def by blast
qed


lemma parseAndLoadSessions_sessions:
  "sessions (parseAndLoadSessions JSON_parse create raw newId now1 now2 st)
     = newSession newId now1 now2 # sessions st
   \<or> sessions (parseAndLoadSessions JSON_parse create raw newId now1 now2 st)
     = [newSession newId now1 now2]
   \<or> (\<exists>j ps. raw = Some j \<and> JSON_parse j = Inr ps
        \<and> set (sessions (parseAndLoadSessions JSON_parse create raw newId now1 now2 st))
          = set ps)"
proof (cases "\<exists>j ps. raw = Some j \<and> j \<noteq> [] \<and> JSON_parse j = Inr ps")
  case False
  then show ?thesis
    by (auto simp: parseAndLoadSessions_def createNewSession_sessions
        split: option.splits sum.splits if_splits)
next
  case True
  then obtain j ps where h: "raw = Some j" "j \<noteq> []" "JSON_parse j = Inr ps" by blast
  show ?thesis
  proof (cases "ps = []")
    case True
    with h show ?thesis
      by (simp add: parseAndLoadSessions_def createNewSession_sessions)
  next
    case False
    from parseAndLoadSessions_parsed
      [where JSON_parse = JSON_parse and j = j and ps = ps and create = create
         and newId = newId and ?now1.0 = now1 and ?now2.0 = now2 and st = st, OF h(2,3) False]
    obtain m rest where s: "sort_key (\<lambda>a. - lastUpdated a) ps = m # rest"
      and e: "parseAndLoadSessions JSON_parse create (Some j) newId now1 now2 st
        = st\<lparr>sessions := m # rest, currentSessionId := Some (session_id m),
             chatSession := resumeChat create (messages m) (chatSession st)\<rparr>"
      by blast
    have "set (m # rest) = set ps"
      using s set_sort [of "\<lambda>a. - lastUpdated a" ps] by simp
    with e h show ?thesis by simp
  qed
qed

lemma deleteSession_sessions:
  "sessions (deleteSession create ident newId now1 now2 st)
     = filter (\<lambda>s. session_id s \<noteq> ident) (sessions st)
   \<or> sessions (deleteSession create ident newId now1 now2 st) = [newSession newId now1 now2]"
proof (cases "currentSessionId st = Some ident")
  case False
  then show ?thesis by (simp add: deleteSession_def Let_def)
next
  case True
  then show ?thesis
    by (cases "filter (\<lambda>s. session_id s \<noteq> ident) (sessions st)")
      (simp_all add: deleteSession_def Let_def createNewSession_sessions)
qed

lemma step_frame:
  assumes "\<not> is_submit ev"
  shows "store_frame (brought JSON_parse ev) (sessions st)
           (sessions (step create sendMessage JSON_parse ev st))"
proof (cases ev)
  case (Load raw newId now1 now2)
  from parseAndLoadSessions_sessions [of JSON_parse create raw newId now1 now2 st]
  consider
    (a) "sessions (parseAndLoadSessions JSON_parse create raw newId now1 now2 st)
          = newSession newId now1 now2 # sessions st"
  | (b) "sessions (parseAndLoadSessions JSON_parse create raw newId now1 now2 st)
          = [newSession newId now1 now2]"
  | (c) j ps where "raw = Some j" "JSON_parse j = Inr ps"
      "set (sessions (parseAndLoadSessions JSON_parse create raw newId now1 now2 st)) = set ps"
    by blast
  then show ?thesis
  proof cases
    case a
    with Load show ?thesis by (simp add: store_frame_cons)
  next
    case b
    with Load show ?thesis by (simp add: store_frame_new)
  next
    case c
    then have "set (sessions (parseAndLoadSessions JSON_parse create raw newId now1 now2 st))
        \<subseteq> brought JSON_parse (Load raw newId now1 now2)"
      by auto
    with Load show ?thesis by (simp only: step.simps store_frame_new)
  qed
next
  case (NewChat newId now1 now2)
  then show ?thesis by (simp add: createNewSession_sessions store_frame_cons)
next
  case (Delete ident newId now1 now2)
  from deleteSession_sessions [of create ident newId now1 now2 st] Delete show ?thesis
    by (auto simp: store_frame_filter store_frame_new)
next
  case (Select ident)
  have "sessions (onSelectSession create ident st) = sessions st"
    by (simp add: onSelectSession_def Let_def split: option.splits)
  with Select show ?thesis by (simp add: store_frame_same)
next
  case (SetInput t)
  then show ?thesis by (simp add: store_frame_same)
next
  case (Submit userMsgId thinkingMsgId now)
  with assms show ?thesis by simp
next
  case Settle
  show ?thesis
  proof (cases "pending st")
    case None
    with Settle show ?thesis by (simp add: store_frame_same)
  next
    case (Some p)
    obtain c t a where p: "p = (c, t, a)" by (cases p) auto
    from continue_sessions(1) [of c t a st]
    have "store_frame {} (sessions st) (sessions (handleSendMessage_continue c t a st))"
      by (auto simp: store_frame_map same_but_messages_updates)
    with Settle Some p show ?thesis by simp
  qed
next
  case (CredentialLogin decoded)
  have "sessions (handleCredentialResponse decoded st) = sessions st"
    by (simp add: handleCredentialResponse_def split: sum.splits)
  with CredentialLogin show ?thesis by (simp add: store_frame_same)
next
  case GuestLogin
  then show ?thesis by (simp add: handleGuestLogin_def store_frame_same)
next
  case Logout
  then show ?thesis by (simp add: handleLogout_def store_frame_new)
next
  case (Resize mobile)
  have "sessions (handleResize mobile st) = sessions st"
    by (simp add: handleResize_def Let_def)
  with Resize show ?thesis by (simp add: store_frame_same)
qed

lemma step_keeps_store:
  assumes "\<not> is_submit ev" and "\<not> restocks ev"
  shows "list_all2 same_but_messages
           (sessions (step create sendMessage JSON_parse ev st)) (sessions st)"
proof -
  have same: "list_all2 same_but_messages (sessions st') (sessions st)"
    if "sessions st' = sessions st" for st' :: "'a app_state"
    using that by (simp add: list_all2_refl same_but_messages_updates(3))
  show ?thesis
  proof (cases ev)
    case (Select ident)
    have "sessions (onSelectSession create ident st) = sessions st"
      by (simp add: onSelectSession_def Let_def split: option.splits)
    with Select same show ?thesis by simp
  next
    case (SetInput t)
    with same show ?thesis by simp
  next
    case Settle
    show ?thesis
    proof (cases "pending st")
      case None
      with Settle same show ?thesis by simp
    next
      case (Some p)
      obtain c t a where p: "p = (c, t, a)" by (cases p) auto
      from continue_sessions(1) [of c t a st]
      have "list_all2 same_but_messages
              (sessions (handleSendMessage_continue c t a st)) (sessions st)"
        by (auto simp: list_all2_map1 list_all2_refl same_but_messages_updates)
      with Settle Some p show ?thesis by simp
    qed
  next
    case (CredentialLogin decoded)
    have "sessions (handleCredentialResponse decoded st) = sessions st"
      by (simp add: handleCredentialResponse_def split: sum.splits)
    with CredentialLogin same show ?thesis by simp
  next
    case GuestLogin
    with same show ?thesis by (simp add: handleGuestLogin_def)
  next
    case (Resize mobile)
    have "sessions (handleResize mobile st) = sessions st"
      by (simp add: handleResize_def Let_def)
    with Resize same show ?thesis by simp
  qed (use assms in simp_all)
qed



text \<open>
  Without anything in between, the two events of a turn are \<^verbatim>\<open>handleSendMessage\<close> run
  to its end.
\<close>

lemma Submit_Settle_handleSendMessage:
  assumes "pending st = None"
  shows "step create sendMessage JSON_parse Settle
           (step create sendMessage JSON_parse (Submit userMsgId thinkingMsgId now) st)
         = handleSendMessage create sendMessage userMsgId thinkingMsgId now st"
proof (cases "handleSendMessage_submit userMsgId thinkingMsgId now st")
  case None
  with assms show ?thesis by (simp add: handleSendMessage_def)
next
  case (Some r)
  then obtain current userText st1 where
    r: "handleSendMessage_submit userMsgId thinkingMsgId now st = Some (current, userText, st1)"
    by (cases r) auto
  have p: "pending st1 = None"
    using r assms
    by (cases "currentSessionId st")
      (auto simp: handleSendMessage_submit_def Let_def split: if_splits)
  obtain awaited chat where
    g: "sendMessageToGemini create sendMessage userText (chatSession st1) = (awaited, chat)"
    by (cases "sendMessageToGemini create sendMessage userText (chatSession st1)")
  from r g p show ?thesis
    by (cases awaited)
      (simp_all add: handleSendMessage_def handleSendMessage_settle_def
        handleSendMessage_continue_def)
qed

subsection \<open>The title\<close>







subsection \<open>The time stamp\<close>

text \<open>
  Claim C3, as amended. \<^verbatim>\<open>lastUpdated\<close> changes at the submission of a turn and nowhere
  else.
  \<^item> After any event other than a submission, the stored list consists of sessions the
    event brought with it (the default session built from its own id and times; for a
    load, the sessions its own input parses to), followed by sessions stored before,
    in their order, some left out, each of the others with its id and its
    \<^verbatim>\<open>lastUpdated\<close> as before.
  \<^item> After an event that is neither a submission nor a load, new search, deletion or
    logout, the ids and the \<^verbatim>\<open>lastUpdated\<close> of the stored sessions are as before,
    position by position.
  \<^item> The rest of the handler, run when the awaited call has settled, keeps every
    \<^verbatim>\<open>lastUpdated\<close>, position by position.
  \<^item> A submission that passes the guard sets \<^verbatim>\<open>lastUpdated\<close> of the sessions with the
    active id, which is \<^verbatim>\<open>currentSessionId\<close>, to the current time and keeps that of the
    others; one that the guard refuses changes nothing.
\<close>

theorem lastUpdated_frame:
  "(\<not> is_submit ev \<longrightarrow>
      (\<exists>pre rest kept.
          sessions (step create sendMessage JSON_parse ev st) = pre @ rest
          \<and> set pre \<subseteq> brought JSON_parse ev
          \<and> subseq kept (sessions st)
          \<and> list_all2 (\<lambda>s' s. session_id s' = session_id s \<and> lastUpdated s' = lastUpdated s)
               rest kept))
   \<and> (\<not> is_submit ev \<and> \<not> restocks ev \<longrightarrow>
        map session_id (sessions (step create sendMessage JSON_parse ev st))
          = map session_id (sessions st)
        \<and> map lastUpdated (sessions (step create sendMessage JSON_parse ev st))
          = map lastUpdated (sessions st))
   \<and> map lastUpdated
        (sessions (handleSendMessage_settle create sendMessage current thinkingMsgId userText st))
      = map lastUpdated (sessions st)
   \<and> map lastUpdated (sessions (step create sendMessage JSON_parse Settle st))
      = map lastUpdated (sessions st)
   \<and> (handleSendMessage_submit userMsgId newThinkingMsgId now st = Some (active, utext, st1) \<longrightarrow>
        currentSessionId st = Some active
        \<and> sessions (step create sendMessage JSON_parse (Submit userMsgId newThinkingMsgId now) st)
            = sessions st1
        \<and> map lastUpdated (sessions st1)
            = map (\<lambda>s. if session_id s = active then now else lastUpdated s) (sessions st))
   \<and> (handleSendMessage_submit userMsgId newThinkingMsgId now st = None \<longrightarrow>
        step create sendMessage JSON_parse (Submit userMsgId newThinkingMsgId now) st = st)"
proof -
  have frame: "\<exists>pre rest kept.
          sessions (step create sendMessage JSON_parse ev st) = pre @ rest
          \<and> set pre \<subseteq> brought JSON_parse ev
          \<and> subseq kept (sessions st)
          \<and> list_all2 (\<lambda>s' s. session_id s' = session_id s \<and> lastUpdated s' = lastUpdated s)
               rest kept"
    if ns: "\<not> is_submit ev"
  proof -
    from step_frame [OF ns, of JSON_parse st create sendMessage]
    obtain pre rest kept where f:
      "sessions (step create sendMessage JSON_parse ev st) = pre @ rest"
      "set pre \<subseteq> brought JSON_parse ev" "subseq kept (sessions st)"
      "list_all2 same_but_messages rest kept"
      unfolding store_frame_def by blast
    from f(4)
    have "list_all2 (\<lambda>s' s. session_id s' = session_id s \<and> lastUpdated s' = lastUpdated s)
            rest kept"
      by (rule list_all2_mono) (simp add: same_but_messages_def)
    with f(1,2,3) show ?thesis by blast
  qed
  have keeps: "map session_id (sessions (step create sendMessage JSON_parse ev st))
          = map session_id (sessions st)
        \<and> map lastUpdated (sessions (step create sendMessage JSON_parse ev st))
          = map lastUpdated (sessions st)"
    if "\<not> is_submit ev" "\<not> restocks ev"
  proof -
    from step_keeps_store [OF that, of create sendMessage JSON_parse st]
    have l: "list_all2 same_but_messages
               (sessions (step create sendMessage JSON_parse ev st)) (sessions st)" .
    have m: "map f xs = map f ys"
      if "list_all2 same_but_messages xs ys" "\<And>a b. same_but_messages a b \<Longrightarrow> f a = f b"
      for f :: "ChatSession \<Rightarrow> 'b" and xs ys
      using that by (induction xs ys rule: list_all2_induct) auto
    have "map session_id (sessions (step create sendMessage JSON_parse ev st))
          = map session_id (sessions st)"
      by (rule m [OF l]) (simp add: same_but_messages_def)
    moreover have "map lastUpdated (sessions (step create sendMessage JSON_parse ev st))
          = map lastUpdated (sessions st)"
      by (rule m [OF l]) (simp add: same_but_messages_def)
    ultimately show ?thesis by simp
  qed
  have settle: "map lastUpdated (sessions (step create sendMessage JSON_parse Settle st))
      = map lastUpdated (sessions st)"
  proof (cases "pending st")
    case None
    then show ?thesis by simp
  next
    case (Some p)
    obtain c t a where p: "p = (c, t, a)" by (cases p) auto
    from continue_sessions(1) [of c t a st]
    have "map lastUpdated (sessions (handleSendMessage_continue c t a st))
        = map lastUpdated (sessions st)"
      by (auto simp: lastUpdated_updates)
    with Some p show ?thesis by simp
  qed
  have sub: "currentSessionId st = Some active
        \<and> sessions (step create sendMessage JSON_parse (Submit userMsgId newThinkingMsgId now) st)
            = sessions st1
        \<and> map lastUpdated (sessions st1)
            = map (\<lambda>s. if session_id s = active then now else lastUpdated s) (sessions st)"
    if h: "handleSendMessage_submit userMsgId newThinkingMsgId now st = Some (active, utext, st1)"
    using handleSendMessage_submit_Some [OF h] step_Submit(2) [OF h, of create sendMessage JSON_parse]
    by (simp add: lastUpdated_updates)
  have refused: "step create sendMessage JSON_parse (Submit userMsgId newThinkingMsgId now) st = st"
    if "handleSendMessage_submit userMsgId newThinkingMsgId now st = None"
    using that by (rule step_Submit(1))
  from frame keeps settle_lastUpdated(1) settle sub refused show ?thesis by blast
qed

theorem lastUpdated_frame_witness:
  "\<not> is_submit (Delete (js ''s2'') (js ''s3'') 3 3)
   \<and> sessions (step ex_create ex_send ex_parse (Delete (js ''s2'') (js ''s3'') 3 3) ex_two)
        = [newSession (js ''s1'') 1 1]
   \<and> (\<exists>pre rest kept.
          sessions (step ex_create ex_send ex_parse (Delete (js ''s2'') (js ''s3'') 3 3) ex_two)
            = pre @ rest
          \<and> set pre \<subseteq> brought ex_parse (Delete (js ''s2'') (js ''s3'') 3 3)
          \<and> subseq kept (sessions ex_two)
          \<and> list_all2 (\<lambda>s' s. session_id s' = session_id s \<and> lastUpdated s' = lastUpdated s)
               rest kept)
   \<and> \<not> is_submit (Select (js ''s1'')) \<and> \<not> restocks (Select (js ''s1''))
   \<and> map lastUpdated (sessions (step ex_create ex_send ex_parse (Select (js ''s1'')) ex_two))
        = [2, 1]
   \<and> handleSendMessage_submit (js ''m1'') (js ''m2'') 5 ex_typed
        = Some (js ''s1'', js ''hi'', ex_submitted)
   \<and> currentSessionId ex_typed = Some (js ''s1'')
   \<and> sessions ex_awaiting = sessions ex_submitted
   \<and> map lastUpdated (sessions ex_submitted) = [5]
   \<and> map lastUpdated (sessions (step ex_create ex_send ex_parse Settle ex_awaiting)) = [5]
   \<and> handleSendMessage_submit (js ''m3'') (js ''m4'') 7 ex_loaded = None
   \<and> step ex_create ex_send ex_parse (Submit (js ''m3'') (js ''m4'') 7) ex_loaded = ex_loaded"
proof -
  have n: "\<not> is_submit (Delete (js ''s2'') (js ''s3'') 3 3)" by simp
  have d: "sessions (step ex_create ex_send ex_parse (Delete (js ''s2'') (js ''s3'') 3 3) ex_two)
        = [newSession (js ''s1'') 1 1]"
    by (simp add: deleteSession_def Let_def ex_two_eval newSession_def js_def)
  note t = lastUpdated_frame
    [where create = ex_create and sendMessage = ex_send and JSON_parse = ex_parse]
  from t [where ev = "Delete (js ''s2'') (js ''s3'') 3 3" and st = ex_two, THEN conjunct1] n
  have a: "\<exists>pre rest kept.
          sessions (step ex_create ex_send ex_parse (Delete (js ''s2'') (js ''s3'') 3 3) ex_two)
            = pre @ rest
          \<and> set pre \<subseteq> brought ex_parse (Delete (js ''s2'') (js ''s3'') 3 3)
          \<and> subseq kept (sessions ex_two)
          \<and> list_all2 (\<lambda>s' s. session_id s' = session_id s \<and> lastUpdated s' = lastUpdated s)
               rest kept"
    by (rule mp)
  from t [where st = ex_typed and userMsgId = "js ''m1''" and newThinkingMsgId = "js ''m2''"
       and now = 5 and active = "js ''s1''" and utext = "js ''hi''" and ?st1.0 = ex_submitted,
       THEN conjunct2, THEN conjunct2, THEN conjunct2, THEN conjunct2, THEN conjunct1]
    ex_submit_eval
  have b: "currentSessionId ex_typed = Some (js ''s1'')
        \<and> sessions (step ex_create ex_send ex_parse (Submit (js ''m1'') (js ''m2'') 5) ex_typed)
            = sessions ex_submitted
        \<and> map lastUpdated (sessions ex_submitted)
            = map (\<lambda>s. if session_id s = js ''s1'' then 5 else lastUpdated s) (sessions ex_typed)"
    by (rule mp)
  then have b1: "sessions ex_awaiting = sessions ex_submitted"
    by (simp add: ex_awaiting_def)
  from b have b2: "map lastUpdated (sessions ex_submitted) = [5]"
    by (simp add: ex_typed_eval newSession_def)
  from t [where st = ex_awaiting, THEN conjunct2, THEN conjunct2, THEN conjunct2,
       THEN conjunct1] b1 b2
  have c: "map lastUpdated (sessions (step ex_create ex_send ex_parse Settle ex_awaiting)) = [5]"
    by simp
  have r: "handleSendMessage_submit (js ''m3'') (js ''m4'') 7 ex_loaded = None"
    by (simp add: handleSendMessage_submit_def ex_loaded_eval trim_def)
      (simp add: ex_loaded_def parseAndLoadSessions_def createNewSession_def Let_def
        initial_state_def)
  from t [where st = ex_loaded and userMsgId = "js ''m3''" and newThinkingMsgId = "js ''m4''"
       and now = 7,
       THEN conjunct2, THEN conjunct2, THEN conjunct2, THEN conjunct2, THEN conjunct2] r
  have e: "step ex_create ex_send ex_parse (Submit (js ''m3'') (js ''m4'') 7) ex_loaded = ex_loaded"
    by (rule mp)
  have k: "\<not> is_submit (Select (js ''s1''))" "\<not> restocks (Select (js ''s1''))"
    by simp_all
  from t [where ev = "Select (js ''s1'')" and st = ex_two, THEN conjunct2, THEN conjunct1] k
  have "map lastUpdated (sessions (step ex_create ex_send ex_parse (Select (js ''s1'')) ex_two))
        = map lastUpdated (sessions ex_two)"
    by blast
  then have k2: "map lastUpdated (sessions (step ex_create ex_send ex_parse (Select (js ''s1'')) ex_two))
        = [2, 1]"
    by (simp add: ex_two_eval newSession_def)
  from n d a k k2 ex_submit_eval b b1 b2 c r e show ?thesis by blast
qed

text \<open>
  Claim C3 as stated fails: the submission of a turn, before any response, changes
  \<^verbatim>\<open>lastUpdated\<close> of the active session from 1 to 5, while the placeholder message is
  still marked as thinking and the loading flag is set.
\<close>

theorem lastUpdated_changes_at_submission:
  "map lastUpdated (sessions ex_typed) = [1]
   \<and> ex_awaiting = step ex_create ex_send ex_parse (Submit (js ''m1'') (js ''m2'') 5) ex_typed
   \<and> map lastUpdated (sessions ex_awaiting) = [5]
   \<and> map (map msg_isThinking \<circ> messages) (sessions ex_awaiting) = [[None, None, Some True]]
   \<and> isLoading ex_awaiting"
proof -
  have a: "map lastUpdated (sessions ex_typed) = [1]"
    by (simp add: ex_typed_eval newSession_def)
  have b: "ex_awaiting
      = step ex_create ex_send ex_parse (Submit (js ''m1'') (js ''m2'') 5) ex_typed"
    by (fact ex_awaiting_def)
  have s: "sessions ex_awaiting
      = [\<lparr>session_id = js ''s1'', session_title = js ''hi'',
          messages =
            [welcomeMsg,
             \<lparr>msg_id = js ''m1'', msg_role = User, msg_text = js ''hi'',
               msg_places = None, msg_isThinking = None\<rparr>,
             \<lparr>msg_id = js ''m2'', msg_role = Model, msg_text = [],
               msg_places = None, msg_isThinking = Some True\<rparr>],
          createdAt = 1, lastUpdated = 5\<rparr>]"
    by (simp add: ex_awaiting_eval(1) ex_submitted_def ex_typed_eval newSession_def
        submit_session_def js_def)
  have c: "map lastUpdated (sessions ex_awaiting) = [5]"
    by (simp add: s)
  have d: "map (map msg_isThinking \<circ> messages) (sessions ex_awaiting)
      = [[None, None, Some True]]"
    by (simp add: s welcomeMsg_def)
  from a b c d ex_awaiting_eval(2) show ?thesis by blast
qed

end
